theory Spec2Isabelle
  imports Main "HOL-Library.Word" "HOL-Library.AList"
begin

text \<open>
  The presence and chat coordinator of the streaming back end: the class
  \<open>SocketService\<close> of \<open>src/services/socket.service.ts\<close>, with the state it keeps on
  its sockets, the rooms of the transport, the \<open>Stream\<close> table it reads and writes,
  and the timer of its debounced broadcast. Every method is a function on that
  state; what the server emits is appended to an outbox.
\<close>

section \<open>JavaScript values\<close>

text \<open>
  Strings are sequences of UTF-16 code units, as in the language of the source.
  \<open>js\<close> turns an ASCII literal into such a string; the few non-ASCII letters of the
  source's literals are written as code units.
\<close>

type_synonym jschar = "16 word"
type_synonym jsstring = "jschar list"

definition js :: "string \<Rightarrow> jsstring" where
  "js s = map of_char s"

text \<open>
  What a client can put into an event payload. A number is kept as its rendering
  \<open>String(n)\<close>: the service only ever tests a number for truthiness, asks its
  \<open>typeof\<close>, or splices it into a template literal. An object is its list of
  own properties.
\<close>

datatype jsval =
    JUndefined
  | JNull
  | JBool bool
  | JNum jsstring
  | JStr jsstring
  | JArr "jsval list"
  | JObj "(jsstring \<times> jsval) list"

fun truthy :: "jsval \<Rightarrow> bool" where
  "truthy JUndefined = False"
| "truthy JNull = False"
| "truthy (JBool b) = b"
| "truthy (JNum r) = (r \<noteq> js ''0'' \<and> r \<noteq> js ''NaN'')"
| "truthy (JStr s) = (s \<noteq> [])"
| "truthy (JArr xs) = True"
| "truthy (JObj fs) = True"

text \<open>\<open>typeof v === 'string'\<close>\<close>

fun is_string :: "jsval \<Rightarrow> bool" where
  "is_string (JStr s) = True"
| "is_string v = False"

text \<open>
  Reading the property \<open>k\<close> of a value that is neither \<open>null\<close> nor \<open>undefined\<close>
  (the handlers only destructure such values). The service reads the keys
  \<open>streamUid\<close>, \<open>message\<close> and \<open>isTyping\<close>, which no primitive and no array has.
\<close>

fun field :: "jsval \<Rightarrow> jsstring \<Rightarrow> jsval" where
  "field (JObj fs) k = (case map_of fs k of Some v \<Rightarrow> v | None \<Rightarrow> JUndefined)"
| "field v k = JUndefined"

fun join_comma :: "jsstring list \<Rightarrow> jsstring" where
  "join_comma [] = []"
| "join_comma [x] = x"
| "join_comma (x # y # ys) = x @ [0x2C] @ join_comma (y # ys)"

text \<open>The string a template literal \<open>`${v}`\<close> splices in.\<close>

fun tpl :: "jsval \<Rightarrow> jsstring" where
  "tpl JUndefined = js ''undefined''"
| "tpl JNull = js ''null''"
| "tpl (JBool b) = (if b then js ''true'' else js ''false'')"
| "tpl (JNum r) = r"
| "tpl (JStr s) = s"
| "tpl (JArr xs) =
     join_comma (map (\<lambda>x. case x of JUndefined \<Rightarrow> [] | JNull \<Rightarrow> [] | _ \<Rightarrow> tpl x) xs)"
| "tpl (JObj fs) = js ''[object Object]''"

text \<open>\<open>String.prototype.trim\<close>: white space and line terminators of ECMAScript.\<close>

definition is_ws :: "jschar \<Rightarrow> bool" where
  "is_ws c = (c \<in> {0x9, 0xA, 0xB, 0xC, 0xD, 0x20, 0xA0, 0x1680, 0x2028, 0x2029,
                   0x202F, 0x205F, 0x3000, 0xFEFF} \<or> (0x2000 \<le> c \<and> c \<le> 0x200A))"

definition trim :: "jsstring \<Rightarrow> jsstring" where
  "trim s = rev (dropWhile is_ws (rev (dropWhile is_ws s)))"

text \<open>
  \<open>data.replace(/(\w+):/g, '"$1":')\<close>: every maximal run of word characters that is
  followed by a colon is put between double quotes. \<open>fix_scan run s\<close> carries the run
  of word characters read so far.
\<close>

definition is_word :: "jschar \<Rightarrow> bool" where
  "is_word c = ((0x41 \<le> c \<and> c \<le> 0x5A) \<or> (0x61 \<le> c \<and> c \<le> 0x7A)
               \<or> (0x30 \<le> c \<and> c \<le> 0x39) \<or> c = 0x5F)"

fun fix_scan :: "jsstring \<Rightarrow> jsstring \<Rightarrow> jsstring" where
  "fix_scan run [] = run"
| "fix_scan run (c # cs) =
     (if is_word c then fix_scan (run @ [c]) cs
      else if c = 0x3A \<and> run \<noteq> [] then [0x22] @ run @ [0x22, 0x3A] @ fix_scan [] cs
      else run @ [c] @ fix_scan [] cs)"

definition fixJson :: "jsstring \<Rightarrow> jsstring" where
  "fixJson s = fix_scan [] s"

text \<open>
  \<open>JSON.parse\<close> belongs to the platform, not to the repository: the service takes it
  as a parameter, \<open>None\<close> standing for the \<open>SyntaxError\<close> it throws.
\<close>

type_synonym json_parser = "jsstring \<Rightarrow> jsval option"


section \<open>Data model\<close>

text \<open>\<open>JwtPayload\<close>, the verified identity attached to a socket at the handshake.\<close>

record identity =
  user_id :: jsstring
  role :: jsstring
  metroUsername :: "jsstring option"
  displayName :: jsstring
  avatar :: "jsstring option"

text \<open>
  A row of the \<open>Stream\<close> table, with the columns the service reads or writes
  (\<open>status\<close> is nullable). Time stamps are left out.
\<close>

record stream =
  uid :: jsstring
  title :: jsstring
  userId :: jsstring
  status :: "jsstring option"
  webRTCPlaybackUrl :: "jsstring option"

type_synonym sid = jsstring

text \<open>
  A socket with the properties the service attaches to it. \<open>isBroadcaster\<close> and
  \<open>isAutoViewer\<close> are only ever set to \<open>true\<close> or deleted; \<open>streamUid\<close> and
  \<open>watchingStream\<close> hold whatever the payload carried, \<open>JUndefined\<close> when deleted.
\<close>

record socket =
  user :: identity
  isBroadcaster :: bool
  streamUid :: jsval
  watchingStream :: jsval
  isAutoViewer :: bool

text \<open>An entry of \<open>activeStreamers\<close> (\<open>lastHeartbeat\<close> is left out).\<close>

record streamer_info =
  si_socketId :: sid
  si_streamUid :: jsval

datatype viewer =
  Viewer (v_id: jsstring) (v_displayName: jsstring) (v_metroUsername: "jsstring option")
         (v_role: jsstring) (v_avatar: jsstring) (v_socketId: sid) (v_reason: "jsstring option")

datatype chat_user =
  ChatUser (cu_id: jsstring) (cu_displayName: jsstring) (cu_metroUsername: "jsstring option")
           (cu_role: jsstring) (cu_avatar: jsstring)

datatype typing_user =
  TypingUser (tu_id: jsstring) (tu_displayName: jsstring) (tu_metroUsername: "jsstring option")
             (tu_avatar: jsstring)

datatype stream_entry =
  StreamEntry (se_stream: stream) (viewersCount: nat) (streamerAvatar: jsstring)

datatype action = Joined | Left

text \<open>
  The events the server emits, with their payloads (time stamps left out):
  \<open>error {event?, message}\<close>, \<open>user-info\<close>, \<open>streams-list {streams, count,
  isViewerCountUpdate?}\<close>, \<open>stream_started {streamUid, status}\<close>,
  \<open>stream_ended {streamUid, message, reason, status?}\<close>,
  \<open>viewer_update {streamUid, action, viewer, currentViewers, totalCount}\<close>,
  \<open>new-message {streamUid, user, message}\<close>, \<open>user-typing {user, isTyping}\<close>.
\<close>

datatype out_event =
    ErrorEv "jsstring option" jsstring
  | UserInfo viewer
  | StreamsList "stream_entry list" nat bool
  | StreamStarted jsval jsstring
  | StreamEnded jsval jsstring jsstring "jsstring option"
  | ViewerUpdate jsval action viewer "viewer list" nat
  | NewMessage jsval chat_user jsstring
  | UserTyping typing_user jsval

text \<open>
  The state of the service and of what it talks to:
  \<^item> \<open>sockets\<close>: the server's map of connected sockets, in connection order;
  \<^item> \<open>rooms\<close>: the adapter's rooms, each the list of its members in joining order;
  \<^item> \<open>db\<close>: the \<open>Stream\<close> table;
  \<^item> \<open>activeStreamers\<close>: the map of tracked streamers, in insertion order;
  \<^item> \<open>broadcastTimeout\<close>: the handle kept by the debouncer;
  \<^item> \<open>timers\<close>: the pending timeouts of the event loop, as (handle, deadline);
  \<^item> \<open>now\<close>: the clock, in milliseconds;
  \<^item> \<open>outbox\<close>: every emission so far, oldest first, with the sockets it went to.
\<close>

record state =
  sockets :: "(sid \<times> socket) list"
  rooms :: "jsstring \<Rightarrow> sid list"
  db :: "stream list"
  activeStreamers :: "(jsval \<times> streamer_info) list"
  broadcastTimeout :: "nat option"
  timers :: "(nat \<times> nat) list"
  nextTimer :: nat
  now :: nat
  outbox :: "(sid list \<times> out_event) list"

definition init :: "stream list \<Rightarrow> state" where
  "init d = \<lparr>sockets = [], rooms = (\<lambda>r. []), db = d, activeStreamers = [],
             broadcastTimeout = None, timers = [], nextTimer = 0, now = 0, outbox = []\<rparr>"


section \<open>The transport\<close>

text \<open>
  Emissions are recorded with the sockets they reach at the time of the call:
  \<open>socket.emit\<close> reaches the socket, \<open>io.emit\<close> every connected socket,
  \<open>io.in(room).emit\<close> the connected members of the room, \<open>socket.to(room).emit\<close>
  the same without the sender. The service only ever names rooms \<open>stream-...\<close>; the
  room every socket has under its own id is left out, the transport's ids not being
  of that form.
\<close>

definition emit :: "sid list \<Rightarrow> out_event \<Rightarrow> state \<Rightarrow> state" where
  "emit to ev st = st\<lparr>outbox := outbox st @ [(to, ev)]\<rparr>"

definition fetchSockets :: "state \<Rightarrow> jsstring \<Rightarrow> (sid \<times> socket) list" where
  "fetchSockets st room =
     List.map_filter (\<lambda>i. map_option (Pair i) (map_of (sockets st) i)) (rooms st room)"

definition socket_emit :: "sid \<Rightarrow> out_event \<Rightarrow> state \<Rightarrow> state" where
  "socket_emit i ev st = emit [i] ev st"

definition io_emit :: "out_event \<Rightarrow> state \<Rightarrow> state" where
  "io_emit ev st = emit (map fst (sockets st)) ev st"

definition io_in_emit :: "jsstring \<Rightarrow> out_event \<Rightarrow> state \<Rightarrow> state" where
  "io_in_emit room ev st = emit (map fst (fetchSockets st room)) ev st"

definition socket_to_emit :: "sid \<Rightarrow> jsstring \<Rightarrow> out_event \<Rightarrow> state \<Rightarrow> state" where
  "socket_to_emit i room ev st =
     emit (filter (\<lambda>j. j \<noteq> i) (map fst (fetchSockets st room))) ev st"

definition socket_join :: "sid \<Rightarrow> jsstring \<Rightarrow> state \<Rightarrow> state" where
  "socket_join i room st =
     st\<lparr>rooms := (rooms st)(room :=
          (if i \<in> set (rooms st room) then rooms st room else rooms st room @ [i]))\<rparr>"

definition socket_leave :: "sid \<Rightarrow> jsstring \<Rightarrow> state \<Rightarrow> state" where
  "socket_leave i room st = st\<lparr>rooms := (rooms st)(room := removeAll i (rooms st room))\<rparr>"

text \<open>Assignment to, or deletion of, properties of the socket object \<open>i\<close>.\<close>

definition upd_socket :: "sid \<Rightarrow> (socket \<Rightarrow> socket) \<Rightarrow> state \<Rightarrow> state" where
  "upd_socket i f st = st\<lparr>sockets := AList.map_entry i f (sockets st)\<rparr>"

text \<open>\<open>`stream-${streamUid}`\<close>\<close>

definition room_of :: "jsval \<Rightarrow> jsstring" where
  "room_of v = js ''stream-'' @ tpl v"


section \<open>Timers\<close>

text \<open>
  \<open>setTimeout\<close> hands out a fresh handle and queues the deadline; \<open>clearTimeout\<close>
  drops a pending timeout and does nothing to one that has fired.
\<close>

definition clearTimeout :: "nat \<Rightarrow> state \<Rightarrow> state" where
  "clearTimeout h st = st\<lparr>timers := filter (\<lambda>t. fst t \<noteq> h) (timers st)\<rparr>"

definition setTimeout :: "nat \<Rightarrow> state \<Rightarrow> nat \<times> state" where
  "setTimeout delay st =
     (nextTimer st, st\<lparr>timers := timers st @ [(nextTimer st, now st + delay)],
                       nextTimer := Suc (nextTimer st)\<rparr>)"

definition scheduleBroadcastUpdate :: "state \<Rightarrow> state" where
  "scheduleBroadcastUpdate st =
     (let st1 = (case broadcastTimeout st of Some h \<Rightarrow> clearTimeout h st | None \<Rightarrow> st);
          (h, st2) = setTimeout 100 st1
      in st2\<lparr>broadcastTimeout := Some h\<rparr>)"


section \<open>The Stream table\<close>

text \<open>
  The queries the service sends through Prisma. In a \<open>where\<close> clause an \<open>undefined\<close>
  value means no condition on that column; a value of the wrong type is refused
  with a validation error, and so is an \<open>update\<close> whose unique key is missing.
  \<open>update\<close> of a row that does not exist throws as well. The table answers every
  query: a database that cannot be reached is not part of the model.

  Two things are left out. A \<open>uid\<close> that is an object is always refused here, although
  \<open>findFirst\<close> reads some objects as filters (one with the key \<open>equals\<close>, say). And
  two \<open>uid\<close>s are the same only when they are the same string, although the
  collation of the column may take strings that differ in case for equal. The
  properties that look into the table are stated for a \<open>uid\<close> that is a string and
  for rows whose \<open>uid\<close> is compared with it as it is.
\<close>

datatype db_error = ValidationError | RecordNotFound

definition uid_filter :: "jsval \<Rightarrow> db_error + (stream \<Rightarrow> bool)" where
  "uid_filter v = (case v of JStr s \<Rightarrow> Inr (\<lambda>r. uid r = s)
                           | JUndefined \<Rightarrow> Inr (\<lambda>r. True)
                           | _ \<Rightarrow> Inl ValidationError)"

text \<open>\<open>findFirst({where: {uid, status}})\<close>\<close>

definition findFirst_uid_status :: "stream list \<Rightarrow> jsval \<Rightarrow> jsstring \<Rightarrow> db_error + stream option" where
  "findFirst_uid_status d v s =
     (case uid_filter v of Inl e \<Rightarrow> Inl e
      | Inr p \<Rightarrow> Inr (List.find (\<lambda>r. p r \<and> status r = Some s) d))"

text \<open>\<open>findFirst({where: {uid, userId}})\<close>\<close>

definition findFirst_uid_userId :: "stream list \<Rightarrow> jsval \<Rightarrow> jsstring \<Rightarrow> db_error + stream option" where
  "findFirst_uid_userId d v u =
     (case uid_filter v of Inl e \<Rightarrow> Inl e
      | Inr p \<Rightarrow> Inr (List.find (\<lambda>r. p r \<and> userId r = u) d))"

text \<open>\<open>update({where: {uid}, data: {status}})\<close>\<close>

definition update_status :: "stream list \<Rightarrow> jsval \<Rightarrow> jsstring \<Rightarrow> db_error + stream list" where
  "update_status d v s =
     (case v of
        JStr k \<Rightarrow> (if list_ex (\<lambda>r. uid r = k) d
                   then Inr (map (\<lambda>r. if uid r = k then r\<lparr>status := Some s\<rparr> else r) d)
                   else Inl RecordNotFound)
      | _ \<Rightarrow> Inl ValidationError)"

text \<open>\<open>findMany({where: {status: "active"}})\<close>\<close>

definition findMany_active :: "stream list \<Rightarrow> stream list" where
  "findMany_active d = filter (\<lambda>r. status r = Some (js ''active'')) d"


section \<open>The service\<close>

definition DEFAULT_AVATAR :: jsstring where
  "DEFAULT_AVATAR = js ''https://cdn-icons-png.flaticon.com/512/3541/3541871.png''"

definition getUserAvatar :: "identity \<Rightarrow> jsstring" where
  "getUserAvatar u = (case avatar u of None \<Rightarrow> DEFAULT_AVATAR
                      | Some a \<Rightarrow> if a = [] then DEFAULT_AVATAR else a)"

definition msg_invalid_format :: jsstring where
  "msg_invalid_format = js ''Formato de datos inv'' @ [0xE1] @ js ''lido''"

text \<open>
  \<open>parseSocketData\<close>: a string is parsed, and parsed again after \<open>fixJson\<close> when that
  fails; when both fail the socket gets an error and the result is \<open>null\<close>. Anything
  else is returned as it is.
\<close>

definition parseSocketData :: "json_parser \<Rightarrow> state \<Rightarrow> sid \<Rightarrow> jsval \<Rightarrow> jsval \<times> state" where
  "parseSocketData jp st i data =
     (case data of
        JStr s \<Rightarrow>
          (case jp s of
             Some v \<Rightarrow> (v, st)
           | None \<Rightarrow>
              (case jp (fixJson s) of
                 Some v \<Rightarrow> (v, st)
               | None \<Rightarrow> (JNull, socket_emit i (ErrorEv None msg_invalid_format) st)))
      | _ \<Rightarrow> (data, st))"

definition registerActiveStreamer :: "sid \<Rightarrow> jsval \<Rightarrow> state \<Rightarrow> state" where
  "registerActiveStreamer i k st =
     st\<lparr>activeStreamers :=
          AList.update k \<lparr>si_socketId = i, si_streamUid = k\<rparr> (activeStreamers st)\<rparr>"

definition unregisterActiveStreamer :: "jsval \<Rightarrow> state \<Rightarrow> state" where
  "unregisterActiveStreamer k st = st\<lparr>activeStreamers := AList.delete k (activeStreamers st)\<rparr>"

definition viewerInfo :: "sid \<Rightarrow> socket \<Rightarrow> jsstring option \<Rightarrow> viewer" where
  "viewerInfo i s reason =
     Viewer (user_id (user s)) (displayName (user s)) (metroUsername (user s))
            (role (user s)) (getUserAvatar (user s)) i reason"

text \<open>The filter \<open>!s.isBroadcaster && s.isAutoViewer\<close>.\<close>

definition is_viewer :: "sid \<times> socket \<Rightarrow> bool" where
  "is_viewer p = (\<not> isBroadcaster (snd p) \<and> isAutoViewer (snd p))"

definition notifyStreamerAboutViewers :: "state \<Rightarrow> jsval \<Rightarrow> action \<Rightarrow> viewer \<Rightarrow> state" where
  "notifyStreamerAboutViewers st k act info =
     (let socketsInRoom = fetchSockets st (room_of k);
          currentViewers = map (\<lambda>p. viewerInfo (fst p) (snd p) None) (filter is_viewer socketsInRoom)
      in case List.find (\<lambda>p. isBroadcaster (snd p)) socketsInRoom of
           Some streamerSocket \<Rightarrow>
             socket_emit (fst streamerSocket)
               (ViewerUpdate k act info currentViewers (length currentViewers)) st
         | None \<Rightarrow> st)"


definition msg_not_available :: jsstring where
  "msg_not_available = js ''El stream no est'' @ [0xE1] @ js '' disponible''"

definition handleWatchLive :: "json_parser \<Rightarrow> state \<Rightarrow> sid \<Rightarrow> socket \<Rightarrow> jsval \<Rightarrow> state" where
  "handleWatchLive jp st i sock stream_data =
     (let (parsedData, st1) = parseSocketData jp st i stream_data in
      if \<not> truthy parsedData then st1
      else
        let k = field parsedData (js ''streamUid'') in
        case findFirst_uid_status (db st1) k (js ''active'') of
          Inl e \<Rightarrow> socket_emit i (ErrorEv None (js ''Error al unirse al stream'')) st1
        | Inr None \<Rightarrow> socket_emit i (ErrorEv None msg_not_available) st1
        | Inr (Some r) \<Rightarrow>
            let st2 = socket_join i (room_of k) st1;
                st3 = upd_socket i (\<lambda>s. s\<lparr>watchingStream := k, isAutoViewer := True\<rparr>) st2;
                st4 = notifyStreamerAboutViewers st3 k Joined (viewerInfo i sock None)
            in scheduleBroadcastUpdate st4)"

definition handleStopWatching :: "json_parser \<Rightarrow> state \<Rightarrow> sid \<Rightarrow> socket \<Rightarrow> jsval \<Rightarrow> state" where
  "handleStopWatching jp st i sock stream_data =
     (let (parsedData, st1) = parseSocketData jp st i stream_data in
      if \<not> truthy parsedData then st1
      else
        let k = field parsedData (js ''streamUid'');
            st2 = socket_leave i (room_of k) st1;
            st3 = upd_socket i (\<lambda>s. s\<lparr>watchingStream := JUndefined, isAutoViewer := False\<rparr>) st2;
            st4 = notifyStreamerAboutViewers st3 k Left (viewerInfo i sock None)
        in scheduleBroadcastUpdate st4)"

definition handleStartStreaming :: "json_parser \<Rightarrow> state \<Rightarrow> sid \<Rightarrow> socket \<Rightarrow> jsval \<Rightarrow> state" where
  "handleStartStreaming jp st i sock streamData =
     (let (parsedData, st1) = parseSocketData jp st i streamData in
      if \<not> truthy parsedData then st1
      else
        let k = field parsedData (js ''streamUid'') in
        case findFirst_uid_userId (db st1) k (user_id (user sock)) of
          Inl e \<Rightarrow> socket_emit i (ErrorEv None (js ''Error al iniciar stream'')) st1
        | Inr None \<Rightarrow>
            socket_emit i (ErrorEv None (js ''Stream no encontrado o no tienes permisos'')) st1
        | Inr (Some r) \<Rightarrow>
            (case update_status (db st1) k (js ''active'') of
               Inl e \<Rightarrow> socket_emit i (ErrorEv None (js ''Error al iniciar stream'')) st1
             | Inr d \<Rightarrow>
                 let st2 = st1\<lparr>db := d\<rparr>;
                     st3 = upd_socket i (\<lambda>s. s\<lparr>isBroadcaster := True, streamUid := k\<rparr>) st2;
                     st4 = socket_join i (room_of k) st3;
                     st5 = registerActiveStreamer i k st4;
                     st6 = scheduleBroadcastUpdate st5
                 in socket_emit i (StreamStarted k (js ''true'')) st6))"

definition handleEndStreaming :: "json_parser \<Rightarrow> state \<Rightarrow> sid \<Rightarrow> socket \<Rightarrow> jsval \<Rightarrow> state" where
  "handleEndStreaming jp st i sock stream_data =
     (let (parsedData, st1) = parseSocketData jp st i stream_data in
      if \<not> truthy parsedData then st1
      else
        let k = field parsedData (js ''streamUid'') in
        case findFirst_uid_userId (db st1) k (user_id (user sock)) of
          Inl e \<Rightarrow> socket_emit i (ErrorEv None (js ''Error al finalizar stream'')) st1
        | Inr found \<Rightarrow>
            (case update_status (db st1) k (js ''offline'') of
               Inl e \<Rightarrow> socket_emit i (ErrorEv None (js ''Error al finalizar stream'')) st1
             | Inr d \<Rightarrow>
                 let st2 = st1\<lparr>db := d\<rparr>;
                     st3 = upd_socket i (\<lambda>s. s\<lparr>isBroadcaster := False, streamUid := JUndefined\<rparr>) st2;
                     st4 = unregisterActiveStreamer k st3;
                     st5 = io_emit (StreamEnded k (js ''Stream finalizado por '' @ displayName (user sock))
                                      (js ''manual'') (Some (js ''false''))) st4
                 in scheduleBroadcastUpdate st5))"

text \<open>
  \<open>handleDisconnect\<close> runs when the transport has already taken the socket out of
  its rooms and out of the server's map; \<open>sock\<close> is the closed socket object, which
  nothing refers to afterwards (the handler's deletion of its viewer flags is
  therefore not part of the state).
\<close>

definition handleDisconnect :: "state \<Rightarrow> sid \<Rightarrow> socket \<Rightarrow> state" where
  "handleDisconnect st i sock =
     (let st1 = (if truthy (streamUid sock) \<and> isBroadcaster sock
                 then unregisterActiveStreamer (streamUid sock) st else st)
      in if truthy (watchingStream sock)
         then scheduleBroadcastUpdate
                (notifyStreamerAboutViewers st1 (watchingStream sock) Left
                   (viewerInfo i sock (Some (js ''disconnected''))))
         else st1)"

definition sendUserInfo :: "state \<Rightarrow> sid \<Rightarrow> socket \<Rightarrow> state" where
  "sendUserInfo st i sock = socket_emit i (UserInfo (viewerInfo i sock None)) st"

text \<open>The avatar of the first broadcaster found in the room, or the default one.\<close>

definition streamerAvatar_of :: "(sid \<times> socket) list \<Rightarrow> jsstring" where
  "streamerAvatar_of socketsInRoom =
     (case List.find (\<lambda>p. isBroadcaster (snd p)) socketsInRoom of
        Some streamerSocket \<Rightarrow> getUserAvatar (user (snd streamerSocket))
      | None \<Rightarrow> DEFAULT_AVATAR)"

definition initial_entry :: "state \<Rightarrow> stream \<Rightarrow> stream_entry" where
  "initial_entry st r =
     (let socketsInRoom = fetchSockets st (room_of (JStr (uid r)));
          n = length (filter (\<lambda>p. \<not> isBroadcaster (snd p) \<and> watchingStream (snd p) = JStr (uid r))
                        socketsInRoom)
      in StreamEntry r n (streamerAvatar_of socketsInRoom))"

definition sendInitialStreamsList :: "state \<Rightarrow> sid \<Rightarrow> state" where
  "sendInitialStreamsList st i =
     (let streamsWithViewers = map (initial_entry st) (findMany_active (db st))
      in socket_emit i (StreamsList streamsWithViewers (length streamsWithViewers) False) st)"

definition broadcast_entry :: "state \<Rightarrow> stream \<Rightarrow> stream_entry" where
  "broadcast_entry st r =
     (let socketsInStreamRoom = fetchSockets st (room_of (JStr (uid r)));
          streamSpecificViewers = length (filter is_viewer socketsInStreamRoom)
      in StreamEntry r streamSpecificViewers (streamerAvatar_of socketsInStreamRoom))"

definition broadcastUpdatedStreamsList :: "state \<Rightarrow> state" where
  "broadcastUpdatedStreamsList st =
     (let streamsWithViewers = map (broadcast_entry st) (findMany_active (db st))
      in io_emit (StreamsList streamsWithViewers (length streamsWithViewers) True) st)"

definition msg_invalid_id :: jsstring where
  "msg_invalid_id = js ''ID de stream inv'' @ [0xE1] @ js ''lido''"

definition msg_empty :: jsstring where
  "msg_empty = js ''El mensaje no puede estar vac'' @ [0xED] @ js ''o''"

definition host_suffix :: jsstring where
  "host_suffix = js '' (Anfitri'' @ [0xF3] @ js ''n)''"

definition handleSendMessage :: "json_parser \<Rightarrow> state \<Rightarrow> sid \<Rightarrow> socket \<Rightarrow> jsval \<Rightarrow> state" where
  "handleSendMessage jp st i sock data =
     (let (parsedData, st1) = parseSocketData jp st i data in
      if \<not> truthy parsedData then st1
      else
        let k = field parsedData (js ''streamUid'');
            message = field parsedData (js ''message'')
        in if \<not> truthy k \<or> \<not> is_string k
           then socket_emit i (ErrorEv (Some (js ''send-message'')) msg_invalid_id) st1
           else if \<not> truthy message \<or> \<not> is_string message \<or> trim (tpl message) = []
           then socket_emit i (ErrorEv (Some (js ''send-message'')) msg_empty) st1
           else
             let messageData =
                   NewMessage k
                     (ChatUser (user_id (user sock))
                        (if isBroadcaster sock then displayName (user sock) @ host_suffix
                         else displayName (user sock))
                        (metroUsername (user sock)) (role (user sock)) (getUserAvatar (user sock)))
                     (trim (tpl message))
             in io_in_emit (room_of k) messageData st1)"

text \<open>
  \<open>handleTyping\<close> destructures the payload as it comes: \<open>null\<close> and \<open>undefined\<close> make
  that throw, which the handler catches and only logs.
\<close>

definition handleTyping :: "state \<Rightarrow> sid \<Rightarrow> socket \<Rightarrow> jsval \<Rightarrow> state" where
  "handleTyping st i sock data =
     (case data of
        JUndefined \<Rightarrow> st
      | JNull \<Rightarrow> st
      | _ \<Rightarrow>
         socket_to_emit i (room_of (field data (js ''streamUid'')))
           (UserTyping (TypingUser (user_id (user sock)) (displayName (user sock))
                          (metroUsername (user sock)) (getUserAvatar (user sock)))
                       (field data (js ''isTyping''))) st)"

definition msg_tcp_lost :: jsstring where
  "msg_tcp_lost = js ''Stream finalizado: conexi'' @ [0xF3] @ js ''n TCP perdida''"

definition cleanupOrphanedStream :: "state \<Rightarrow> jsval \<Rightarrow> sid \<Rightarrow> state" where
  "cleanupOrphanedStream st k socketId =
     (let st1 = st\<lparr>activeStreamers := AList.delete k (activeStreamers st)\<rparr> in
      case update_status (db st1) k (js ''offline'') of
        Inl e \<Rightarrow> st1
      | Inr d \<Rightarrow>
          let st2 = st1\<lparr>db := d\<rparr>;
              st3 = io_emit (StreamEnded k msg_tcp_lost (js ''tcp_disconnection'') None) st2
          in scheduleBroadcastUpdate st3)"

text \<open>
  The sweep over \<open>activeStreamers\<close>. Each step deletes at most the entry it is
  visiting, so going through the entries present at the start is what the iteration
  over the live map does.
\<close>

definition sweep_step :: "jsval \<times> streamer_info \<Rightarrow> state \<Rightarrow> state" where
  "sweep_step e st =
     (case map_of (sockets st) (si_socketId (snd e)) of
        None \<Rightarrow> cleanupOrphanedStream st (fst e) (si_socketId (snd e))
      | Some sock \<Rightarrow> st)"

definition checkDisconnectedStreamers :: "state \<Rightarrow> state" where
  "checkDisconnectedStreamers st = fold sweep_step (activeStreamers st) st"

definition destroy :: "state \<Rightarrow> state" where
  "destroy st =
     (let st1 = (case broadcastTimeout st of
                   Some h \<Rightarrow> (clearTimeout h st)\<lparr>broadcastTimeout := None\<rparr>
                 | None \<Rightarrow> st)
      in st1\<lparr>activeStreamers := []\<rparr>)"


section \<open>Events\<close>

datatype client_event =
  WatchLive | StopWatching | GetStreams | SendMessage | Typing | StartStreaming | EndStreaming

text \<open>
  \<open>setupRoleBasedEvents\<close>: the listeners of a socket. \<open>start_streaming\<close> and
  \<open>end_streaming\<close> have a listener only on the sockets of a \<open>metro_streamer\<close>; an
  event without a listener is dropped by the transport.
\<close>

definition on_event :: "json_parser \<Rightarrow> state \<Rightarrow> sid \<Rightarrow> client_event \<Rightarrow> jsval \<Rightarrow> state" where
  "on_event jp st i ev data =
     (case map_of (sockets st) i of
        None \<Rightarrow> st
      | Some sock \<Rightarrow>
         (case ev of
            WatchLive \<Rightarrow> handleWatchLive jp st i sock data
          | StopWatching \<Rightarrow> handleStopWatching jp st i sock data
          | GetStreams \<Rightarrow> sendInitialStreamsList st i
          | SendMessage \<Rightarrow> handleSendMessage jp st i sock data
          | Typing \<Rightarrow> handleTyping st i sock data
          | StartStreaming \<Rightarrow>
              if role (user sock) = js ''metro_streamer''
              then handleStartStreaming jp st i sock data else st
          | EndStreaming \<Rightarrow>
              if role (user sock) = js ''metro_streamer''
              then handleEndStreaming jp st i sock data else st))"

text \<open>
  A handshake: \<open>who\<close> is what \<open>verifyToken\<close> made of the presented token, \<open>None\<close> when
  the token is missing or refused, in which case no socket comes to exist. The
  transport gives every socket an id of its own.
\<close>

definition on_connection :: "state \<Rightarrow> sid \<Rightarrow> identity option \<Rightarrow> state" where
  "on_connection st i who =
     (case who of
        None \<Rightarrow> st
      | Some u \<Rightarrow>
         if i \<in> fst ` set (sockets st) then st
         else
           let sock = \<lparr>user = u, isBroadcaster = False, streamUid = JUndefined,
                       watchingStream = JUndefined, isAutoViewer = False\<rparr>;
               st1 = st\<lparr>sockets := sockets st @ [(i, sock)]\<rparr>;
               st2 = sendUserInfo st1 i sock
           in sendInitialStreamsList st2 i)"

text \<open>
  A socket closes: the transport removes it from every room and from the server's
  map, then the \<open>disconnect\<close> listener runs.
\<close>

definition on_disconnect :: "state \<Rightarrow> sid \<Rightarrow> state" where
  "on_disconnect st i =
     (case map_of (sockets st) i of
        None \<Rightarrow> st
      | Some sock \<Rightarrow>
         handleDisconnect
           (st\<lparr>sockets := AList.delete i (sockets st),
               rooms := (\<lambda>r. removeAll i (rooms st r))\<rparr>) i sock)"

text \<open>
  The clock moves to \<open>t\<close> and the event loop runs the timeouts that are due, oldest
  first. The only callback ever queued is the one of \<open>scheduleBroadcastUpdate\<close>.
\<close>

definition fire :: "nat \<times> nat \<Rightarrow> state \<Rightarrow> state" where
  "fire tm st = broadcastUpdatedStreamsList (st\<lparr>timers := filter (\<lambda>x. fst x \<noteq> fst tm) (timers st)\<rparr>)"

definition advance :: "nat \<Rightarrow> state \<Rightarrow> state" where
  "advance t st =
     (let st1 = st\<lparr>now := max (now st) t\<rparr>
      in fold fire (filter (\<lambda>tm. snd tm \<le> now st1) (timers st1)) st1)"

text \<open>
  What can happen to the service: a handshake, an event from a client, a socket
  closing, time passing, a run of the orphan sweep, \<open>destroy\<close>, and a write to the
  \<open>Stream\<close> table by the REST side of the repository. Each handler runs to its end
  before the next event is taken. Nothing in the service calls
  \<open>checkDisconnectedStreamers\<close>: the sweep happens only when it is asked for, which
  is the event \<open>Sweep\<close>.
\<close>

datatype event =
    Connect sid "identity option"
  | Client sid client_event jsval
  | Disconnect sid
  | Advance nat
  | Sweep
  | Destroy
  | DbWrite "stream list"

fun step :: "json_parser \<Rightarrow> state \<Rightarrow> event \<Rightarrow> state" where
  "step jp st (Connect i who) = on_connection st i who"
| "step jp st (Client i ev data) = on_event jp st i ev data"
| "step jp st (Disconnect i) = on_disconnect st i"
| "step jp st (Advance t) = advance t st"
| "step jp st Sweep = checkDisconnectedStreamers st"
| "step jp st Destroy = destroy st"
| "step jp st (DbWrite d) = st\<lparr>db := d\<rparr>"

definition run :: "json_parser \<Rightarrow> state \<Rightarrow> event list \<Rightarrow> state" where
  "run jp st evs = foldl (step jp) st evs"



section \<open>Scenarios\<close>

text \<open>
  Concrete identities, rows and payloads for the examples below. The payloads of
  the examples are native objects, and one text, \<open>{\<close>, which is not JSON; so the
  examples run with the parser that accepts no text (\<open>Map.empty\<close>).
\<close>

definition streamer :: "jsstring \<Rightarrow> identity" where
  "streamer u = \<lparr>user_id = u, role = js ''metro_streamer'', metroUsername = None,
                 displayName = u, avatar = None\<rparr>"

definition spectator :: "jsstring \<Rightarrow> identity" where
  "spectator u = \<lparr>user_id = u, role = js ''metro_user'', metroUsername = None,
                  displayName = u, avatar = None\<rparr>"

definition stream_row :: "jsstring \<Rightarrow> jsstring \<Rightarrow> jsstring \<Rightarrow> stream" where
  "stream_row k owner s =
     \<lparr>uid = k, title = [], userId = owner, status = Some s, webRTCPlaybackUrl = None\<rparr>"

definition uid_payload :: "jsstring \<Rightarrow> jsval" where
  "uid_payload k = JObj [(js ''streamUid'', JStr k)]"

definition chat_payload :: "jsstring \<Rightarrow> jsstring \<Rightarrow> jsval" where
  "chat_payload k m = JObj [(js ''streamUid'', JStr k), (js ''message'', JStr m)]"


text \<open>The streamer \<open>u2\<close> is live on \<open>s2\<close> from socket \<open>b\<close>; the streamer \<open>u1\<close> is connected as \<open>a\<close>.\<close>

definition two_streamers :: state where
  "two_streamers = run Map.empty (init [stream_row (js ''s2'') (js ''u2'') (js ''offline'')])
     [Connect (js ''b'') (Some (streamer (js ''u2''))),
      Client (js ''b'') StartStreaming (uid_payload (js ''s2'')),
      Connect (js ''a'') (Some (streamer (js ''u1'')))]"

text \<open>A spectator watches \<open>s1\<close>, then \<open>s2\<close>, without leaving \<open>s1\<close> in between.\<close>

definition switched_viewer :: state where
  "switched_viewer = run Map.empty
     (init [stream_row (js ''s1'') (js ''u1'') (js ''active''),
            stream_row (js ''s2'') (js ''u2'') (js ''active'')])
     [Connect (js ''v'') (Some (spectator (js ''u9''))),
      Client (js ''v'') WatchLive (uid_payload (js ''s1'')),
      Client (js ''v'') WatchLive (uid_payload (js ''s2''))]"

text \<open>The streamer \<open>u1\<close> is live on \<open>s1\<close> from socket \<open>b\<close>, and the spectator \<open>v\<close> watches.\<close>

definition live_chat :: state where
  "live_chat = run Map.empty (init [stream_row (js ''s1'') (js ''u1'') (js ''offline'')])
     [Connect (js ''b'') (Some (streamer (js ''u1''))),
      Client (js ''b'') StartStreaming (uid_payload (js ''s1'')),
      Connect (js ''v'') (Some (spectator (js ''u9''))),
      Client (js ''v'') WatchLive (uid_payload (js ''s1''))]"


text \<open>The streamer \<open>u1\<close>, owner of \<open>s1\<close>, is connected twice.\<close>

definition same_owner_twice :: state where
  "same_owner_twice = run Map.empty (init [stream_row (js ''s1'') (js ''u1'') (js ''offline'')])
     [Connect (js ''a1'') (Some (streamer (js ''u1''))),
      Connect (js ''a2'') (Some (streamer (js ''u1'')))]"



text \<open>One spectator is connected and one stream is active.\<close>

definition one_viewer :: state where
  "one_viewer = run Map.empty (init [stream_row (js ''s1'') (js ''u1'') (js ''active'')])
     [Connect (js ''v'') (Some (spectator (js ''u9'')))]"

section \<open>Notions used by the properties\<close>

text \<open>Every pending timeout is the one the debouncer holds the handle of.\<close>

definition timers_ok :: "state \<Rightarrow> bool" where
  "timers_ok st = (set (map fst (timers st)) \<subseteq> set_option (broadcastTimeout st))"

text \<open>
  A burst of calls to the scheduler: one call now, and one more after each of the
  given gaps (in milliseconds), the event loop running in between.
\<close>

fun burst :: "nat list \<Rightarrow> state \<Rightarrow> state" where
  "burst [] st = scheduleBroadcastUpdate st"
| "burst (g # gs) st = burst gs (advance (now st + g) (scheduleBroadcastUpdate st))"

fun is_stream_ended :: "out_event \<Rightarrow> bool" where
  "is_stream_ended (StreamEnded k m r s) = True"
| "is_stream_ended ev = False"






section \<open>Frame lemmas\<close>

lemma emit_frame [simp]:
  "sockets (emit to ev st) = sockets st" "rooms (emit to ev st) = rooms st"
  "db (emit to ev st) = db st" "activeStreamers (emit to ev st) = activeStreamers st"
  "broadcastTimeout (emit to ev st) = broadcastTimeout st" "timers (emit to ev st) = timers st"
  "nextTimer (emit to ev st) = nextTimer st" "now (emit to ev st) = now st"
  "outbox (emit to ev st) = outbox st @ [(to, ev)]"
  by (simp_all add: emit_def)

lemma schedule_frame [simp]:
  "sockets (scheduleBroadcastUpdate st) = sockets st" "rooms (scheduleBroadcastUpdate st) = rooms st"
  "db (scheduleBroadcastUpdate st) = db st"
  "activeStreamers (scheduleBroadcastUpdate st) = activeStreamers st"
  "now (scheduleBroadcastUpdate st) = now st" "outbox (scheduleBroadcastUpdate st) = outbox st"
  by (simp_all add: scheduleBroadcastUpdate_def setTimeout_def clearTimeout_def split: option.splits)

lemma join_frame [simp]:
  "sockets (socket_join i r st) = sockets st"
  "db (socket_join i r st) = db st" "activeStreamers (socket_join i r st) = activeStreamers st"
  "broadcastTimeout (socket_join i r st) = broadcastTimeout st" "timers (socket_join i r st) = timers st"
  "nextTimer (socket_join i r st) = nextTimer st" "now (socket_join i r st) = now st"
  "outbox (socket_join i r st) = outbox st"
  by (simp_all add: socket_join_def)

lemma leave_frame [simp]:
  "sockets (socket_leave i r st) = sockets st"
  "db (socket_leave i r st) = db st" "activeStreamers (socket_leave i r st) = activeStreamers st"
  "broadcastTimeout (socket_leave i r st) = broadcastTimeout st" "timers (socket_leave i r st) = timers st"
  "nextTimer (socket_leave i r st) = nextTimer st" "now (socket_leave i r st) = now st"
  "outbox (socket_leave i r st) = outbox st"
  by (simp_all add: socket_leave_def)

lemma upd_socket_frame [simp]:
  "sockets (upd_socket i f st) = AList.map_entry i f (sockets st)"
  "rooms (upd_socket i f st) = rooms st"
  "db (upd_socket i f st) = db st" "activeStreamers (upd_socket i f st) = activeStreamers st"
  "broadcastTimeout (upd_socket i f st) = broadcastTimeout st" "timers (upd_socket i f st) = timers st"
  "nextTimer (upd_socket i f st) = nextTimer st" "now (upd_socket i f st) = now st"
  "outbox (upd_socket i f st) = outbox st"
  by (simp_all add: upd_socket_def)

lemma register_frame [simp]:
  "sockets (registerActiveStreamer i k st) = sockets st"
  "rooms (registerActiveStreamer i k st) = rooms st"
  "db (registerActiveStreamer i k st) = db st"
  "broadcastTimeout (registerActiveStreamer i k st) = broadcastTimeout st"
  "timers (registerActiveStreamer i k st) = timers st"
  "nextTimer (registerActiveStreamer i k st) = nextTimer st" "now (registerActiveStreamer i k st) = now st"
  "outbox (registerActiveStreamer i k st) = outbox st"
  by (simp_all add: registerActiveStreamer_def)

lemma unregister_frame [simp]:
  "sockets (unregisterActiveStreamer k st) = sockets st"
  "rooms (unregisterActiveStreamer k st) = rooms st"
  "db (unregisterActiveStreamer k st) = db st"
  "activeStreamers (unregisterActiveStreamer k st) = AList.delete k (activeStreamers st)"
  "broadcastTimeout (unregisterActiveStreamer k st) = broadcastTimeout st"
  "timers (unregisterActiveStreamer k st) = timers st"
  "nextTimer (unregisterActiveStreamer k st) = nextTimer st" "now (unregisterActiveStreamer k st) = now st"
  "outbox (unregisterActiveStreamer k st) = outbox st"
  by (simp_all add: unregisterActiveStreamer_def)

lemma notify_frame [simp]:
  "sockets (notifyStreamerAboutViewers st k a v) = sockets st"
  "rooms (notifyStreamerAboutViewers st k a v) = rooms st"
  "db (notifyStreamerAboutViewers st k a v) = db st"
  "activeStreamers (notifyStreamerAboutViewers st k a v) = activeStreamers st"
  "broadcastTimeout (notifyStreamerAboutViewers st k a v) = broadcastTimeout st"
  "timers (notifyStreamerAboutViewers st k a v) = timers st"
  "nextTimer (notifyStreamerAboutViewers st k a v) = nextTimer st"
  "now (notifyStreamerAboutViewers st k a v) = now st"
  by (simp_all add: notifyStreamerAboutViewers_def socket_emit_def Let_def split: option.splits)

lemma parse_frame [simp]:
  "sockets (snd (parseSocketData jp st i data)) = sockets st"
  "rooms (snd (parseSocketData jp st i data)) = rooms st"
  "db (snd (parseSocketData jp st i data)) = db st"
  "activeStreamers (snd (parseSocketData jp st i data)) = activeStreamers st"
  "broadcastTimeout (snd (parseSocketData jp st i data)) = broadcastTimeout st"
  "timers (snd (parseSocketData jp st i data)) = timers st"
  "nextTimer (snd (parseSocketData jp st i data)) = nextTimer st"
  "now (snd (parseSocketData jp st i data)) = now st"
  by (simp_all add: parseSocketData_def socket_emit_def split: jsval.splits option.splits)

lemma broadcast_frame [simp]:
  "sockets (broadcastUpdatedStreamsList st) = sockets st"
  "rooms (broadcastUpdatedStreamsList st) = rooms st"
  "db (broadcastUpdatedStreamsList st) = db st"
  "activeStreamers (broadcastUpdatedStreamsList st) = activeStreamers st"
  "broadcastTimeout (broadcastUpdatedStreamsList st) = broadcastTimeout st"
  "timers (broadcastUpdatedStreamsList st) = timers st"
  "nextTimer (broadcastUpdatedStreamsList st) = nextTimer st"
  "now (broadcastUpdatedStreamsList st) = now st"
  by (simp_all add: broadcastUpdatedStreamsList_def io_emit_def Let_def)

lemma initial_frame [simp]:
  "sockets (sendInitialStreamsList st i) = sockets st"
  "rooms (sendInitialStreamsList st i) = rooms st"
  "db (sendInitialStreamsList st i) = db st"
  "activeStreamers (sendInitialStreamsList st i) = activeStreamers st"
  "broadcastTimeout (sendInitialStreamsList st i) = broadcastTimeout st"
  "timers (sendInitialStreamsList st i) = timers st"
  "nextTimer (sendInitialStreamsList st i) = nextTimer st"
  "now (sendInitialStreamsList st i) = now st"
  by (simp_all add: sendInitialStreamsList_def socket_emit_def Let_def)

lemma map_entry_ident: "AList.map_entry k (\<lambda>x. x) xs = xs"
  by (induction xs) auto

lemma sockets_fire [simp]: "sockets (fire tm st) = sockets st"
  by (simp add: fire_def)

lemma sockets_fold_fire [simp]: "sockets (fold fire tms st) = sockets st"
  by (induction tms arbitrary: st) simp_all

lemma sockets_advance [simp]: "sockets (advance t st) = sockets st"
  by (simp add: advance_def Let_def)

lemma sockets_cleanup [simp]: "sockets (cleanupOrphanedStream st k j) = sockets st"
  by (simp add: cleanupOrphanedStream_def io_emit_def Let_def split: sum.splits)

lemma sockets_sweep_step [simp]: "sockets (sweep_step e st) = sockets st"
  by (simp add: sweep_step_def split: option.splits)

lemma sockets_sweep_fold: "sockets (fold sweep_step es st) = sockets st"
  by (induction es arbitrary: st) simp_all

lemma sockets_sweep [simp]: "sockets (checkDisconnectedStreamers st) = sockets st"
  by (simp add: checkDisconnectedStreamers_def sockets_sweep_fold)

lemma sockets_destroy [simp]: "sockets (destroy st) = sockets st"
  by (simp add: destroy_def clearTimeout_def Let_def split: option.splits)

lemma sockets_handleDisconnect [simp]: "sockets (handleDisconnect st i sock) = sockets st"
  by (simp add: handleDisconnect_def Let_def)

lemma sockets_on_disconnect:
  "sockets (on_disconnect st i) = AList.delete i (sockets st)"
proof (cases "map_of (sockets st) i")
  case None
  then have "i \<notin> fst ` set (sockets st)" by (simp add: map_of_eq_None_iff)
  then have "AList.delete i (sockets st) = sockets st" by (rule delete_id)
  with None show ?thesis by (simp add: on_disconnect_def)
next
  case (Some sock)
  then show ?thesis by (simp add: on_disconnect_def)
qed

lemma sockets_on_connection:
  "sockets (on_connection st i who) = sockets st \<or>
   (\<exists>u. who = Some u \<and> sockets (on_connection st i who) =
      sockets st @ [(i, \<lparr>user = u, isBroadcaster = False, streamUid = JUndefined,
                       watchingStream = JUndefined, isAutoViewer = False\<rparr>)])"
  by (simp add: on_connection_def sendUserInfo_def socket_emit_def Let_def split: option.splits)


lemma parse_cases:
  obtains (parsed) p where "parseSocketData jp st i data = (p, st)"
  | (failed) "parseSocketData jp st i data = (JNull, socket_emit i (ErrorEv None msg_invalid_format) st)"
proof -
  have "(\<exists>p. parseSocketData jp st i data = (p, st)) \<or>
        parseSocketData jp st i data = (JNull, socket_emit i (ErrorEv None msg_invalid_format) st)"
    by (cases data) (simp_all add: parseSocketData_def split: option.splits)
  with that show ?thesis by blast
qed

lemma socket_emit_frame [simp]:
  "sockets (socket_emit i ev st) = sockets st" "rooms (socket_emit i ev st) = rooms st"
  "db (socket_emit i ev st) = db st" "activeStreamers (socket_emit i ev st) = activeStreamers st"
  "broadcastTimeout (socket_emit i ev st) = broadcastTimeout st" "timers (socket_emit i ev st) = timers st"
  "nextTimer (socket_emit i ev st) = nextTimer st" "now (socket_emit i ev st) = now st"
  "outbox (socket_emit i ev st) = outbox st @ [([i], ev)]"
  by (simp_all add: socket_emit_def)

lemma io_emit_frame [simp]:
  "sockets (io_emit ev st) = sockets st" "rooms (io_emit ev st) = rooms st"
  "db (io_emit ev st) = db st" "activeStreamers (io_emit ev st) = activeStreamers st"
  "broadcastTimeout (io_emit ev st) = broadcastTimeout st" "timers (io_emit ev st) = timers st"
  "nextTimer (io_emit ev st) = nextTimer st" "now (io_emit ev st) = now st"
  "outbox (io_emit ev st) = outbox st @ [(map fst (sockets st), ev)]"
  by (simp_all add: io_emit_def)

lemma sockets_handleWatchLive:
  "sockets (handleWatchLive jp st i sock data) = sockets st \<or>
   (\<exists>k. sockets (handleWatchLive jp st i sock data) =
      AList.map_entry i (\<lambda>s. s\<lparr>watchingStream := k, isAutoViewer := True\<rparr>) (sockets st))"
  by (cases rule: parse_cases[of jp st i data])
     (auto simp: handleWatchLive_def Let_def split: sum.splits option.splits)

lemma sockets_handleStopWatching:
  "sockets (handleStopWatching jp st i sock data) = sockets st \<or>
   sockets (handleStopWatching jp st i sock data) =
      AList.map_entry i (\<lambda>s. s\<lparr>watchingStream := JUndefined, isAutoViewer := False\<rparr>) (sockets st)"
  by (cases rule: parse_cases[of jp st i data])
     (auto simp: handleStopWatching_def Let_def)

lemma sockets_handleStartStreaming:
  "sockets (handleStartStreaming jp st i sock data) = sockets st \<or>
   (\<exists>k. sockets (handleStartStreaming jp st i sock data) =
      AList.map_entry i (\<lambda>s. s\<lparr>isBroadcaster := True, streamUid := k\<rparr>) (sockets st))"
  by (cases rule: parse_cases[of jp st i data])
     (auto simp: handleStartStreaming_def Let_def split: sum.splits option.splits)

lemma sockets_handleEndStreaming:
  "sockets (handleEndStreaming jp st i sock data) = sockets st \<or>
   sockets (handleEndStreaming jp st i sock data) =
      AList.map_entry i (\<lambda>s. s\<lparr>isBroadcaster := False, streamUid := JUndefined\<rparr>) (sockets st)"
  by (cases rule: parse_cases[of jp st i data])
     (auto simp: handleEndStreaming_def Let_def split: sum.splits option.splits)

lemma sockets_handleSendMessage [simp]:
  "sockets (handleSendMessage jp st i sock data) = sockets st"
  by (cases rule: parse_cases[of jp st i data])
     (auto simp: handleSendMessage_def io_in_emit_def Let_def)

lemma sockets_handleTyping [simp]:
  "sockets (handleTyping st i sock data) = sockets st"
  by (simp add: handleTyping_def socket_to_emit_def split: jsval.splits)

text \<open>What a client event does to the socket objects.\<close>

lemma sockets_on_event:
  assumes "map_of (sockets st) i = Some sock"
  shows "\<exists>f. sockets (on_event jp st i ev data) = AList.map_entry i f (sockets st) \<and>
             user (f sock) = user sock \<and>
             (isBroadcaster (f sock) \<longrightarrow> isBroadcaster sock \<or> role (user sock) = js ''metro_streamer'')"
    (is "\<exists>f. ?G f")
proof -
  have same: "sockets (on_event jp st i ev data) = sockets st \<Longrightarrow> ?thesis"
  proof -
    assume "sockets (on_event jp st i ev data) = sockets st"
    then have "?G (\<lambda>x. x)" by (simp add: map_entry_ident)
    then show ?thesis by blast
  qed
  show ?thesis
  proof (cases ev)
    case WatchLive
    with assms have e: "on_event jp st i ev data = handleWatchLive jp st i sock data"
      by (simp add: on_event_def)
    from sockets_handleWatchLive[of jp st i sock data] show ?thesis
    proof
      assume "sockets (handleWatchLive jp st i sock data) = sockets st"
      with e same show ?thesis by simp
    next
      assume "\<exists>k. sockets (handleWatchLive jp st i sock data) =
        AList.map_entry i (\<lambda>s. s\<lparr>watchingStream := k, isAutoViewer := True\<rparr>) (sockets st)"
      then obtain k where "?G (\<lambda>s. s\<lparr>watchingStream := k, isAutoViewer := True\<rparr>)"
        using e by auto
      then show ?thesis by blast
    qed
  next
    case StopWatching
    with assms have e: "on_event jp st i ev data = handleStopWatching jp st i sock data"
      by (simp add: on_event_def)
    from sockets_handleStopWatching[of jp st i sock data] show ?thesis
    proof
      assume "sockets (handleStopWatching jp st i sock data) = sockets st"
      with e same show ?thesis by simp
    next
      assume "sockets (handleStopWatching jp st i sock data) =
        AList.map_entry i (\<lambda>s. s\<lparr>watchingStream := JUndefined, isAutoViewer := False\<rparr>) (sockets st)"
      then have "?G (\<lambda>s. s\<lparr>watchingStream := JUndefined, isAutoViewer := False\<rparr>)"
        using e by auto
      then show ?thesis by blast
    qed
  next
    case GetStreams
    with assms same show ?thesis by (simp add: on_event_def)
  next
    case SendMessage
    with assms same show ?thesis by (simp add: on_event_def)
  next
    case Typing
    with assms same show ?thesis by (simp add: on_event_def)
  next
    case StartStreaming
    show ?thesis
    proof (cases "role (user sock) = js ''metro_streamer''")
      case False
      with StartStreaming assms same show ?thesis by (simp add: on_event_def)
    next
      case True
      with StartStreaming assms have e: "on_event jp st i ev data = handleStartStreaming jp st i sock data"
        by (simp add: on_event_def)
      from sockets_handleStartStreaming[of jp st i sock data] show ?thesis
      proof
        assume "sockets (handleStartStreaming jp st i sock data) = sockets st"
        with e same show ?thesis by simp
      next
        assume "\<exists>k. sockets (handleStartStreaming jp st i sock data) =
          AList.map_entry i (\<lambda>s. s\<lparr>isBroadcaster := True, streamUid := k\<rparr>) (sockets st)"
        then obtain k where "?G (\<lambda>s. s\<lparr>isBroadcaster := True, streamUid := k\<rparr>)"
          using e True by auto
        then show ?thesis by blast
      qed
    qed
  next
    case EndStreaming
    show ?thesis
    proof (cases "role (user sock) = js ''metro_streamer''")
      case False
      with EndStreaming assms same show ?thesis by (simp add: on_event_def)
    next
      case True
      with EndStreaming assms have e: "on_event jp st i ev data = handleEndStreaming jp st i sock data"
        by (simp add: on_event_def)
      from sockets_handleEndStreaming[of jp st i sock data] show ?thesis
      proof
        assume "sockets (handleEndStreaming jp st i sock data) = sockets st"
        with e same show ?thesis by simp
      next
        assume "sockets (handleEndStreaming jp st i sock data) =
          AList.map_entry i (\<lambda>s. s\<lparr>isBroadcaster := False, streamUid := JUndefined\<rparr>) (sockets st)"
        then have "?G (\<lambda>s. s\<lparr>isBroadcaster := False, streamUid := JUndefined\<rparr>)"
          using e by auto
        then show ?thesis by blast
      qed
    qed
  qed
qed



section \<open>Runs\<close>

lemma run_snoc: "run jp st (evs @ [e]) = step jp (run jp st evs) e"
  by (simp add: run_def)

lemma run_Nil: "run jp st [] = st"
  by (simp add: run_def)

text \<open>The equations that evaluate a run on concrete events.\<close>

lemmas eval_defs = run_def init_def on_connection_def on_event_def on_disconnect_def
  handleWatchLive_def handleStopWatching_def handleStartStreaming_def handleEndStreaming_def
  handleSendMessage_def handleTyping_def handleDisconnect_def
  parseSocketData_def sendUserInfo_def sendInitialStreamsList_def broadcastUpdatedStreamsList_def
  notifyStreamerAboutViewers_def cleanupOrphanedStream_def sweep_step_def
  checkDisconnectedStreamers_def destroy_def
  advance_def fire_def
  socket_emit_def emit_def io_emit_def io_in_emit_def socket_to_emit_def
  socket_join_def socket_leave_def upd_socket_def clearTimeout_def setTimeout_def
  scheduleBroadcastUpdate_def registerActiveStreamer_def unregisterActiveStreamer_def
  findMany_active_def initial_entry_def broadcast_entry_def fetchSockets_def room_of_def
  findFirst_uid_userId_def findFirst_uid_status_def uid_filter_def update_status_def
  viewerInfo_def getUserAvatar_def streamerAvatar_of_def is_viewer_def List.map_filter_def Let_def
  streamer_def spectator_def stream_row_def uid_payload_def chat_payload_def js_def


section \<open>Role flags of a connection\<close>

lemma list_all_map_entry:
  "map_of xs k = Some v \<Longrightarrow> list_all P xs \<Longrightarrow> P (k, f v) \<Longrightarrow> list_all P (AList.map_entry k f xs)"
  by (induction xs) (auto split: if_splits)

lemma list_all_delete: "list_all P xs \<Longrightarrow> list_all P (AList.delete k xs)"
  by (simp add: AList.delete_eq list_all_iff)

text \<open>Only the socket of a \<open>metro_streamer\<close> is ever marked as broadcaster.\<close>

lemma streamer_only_step:
  assumes "list_all (\<lambda>p. role (user (snd p)) = js ''metro_streamer'' \<or> \<not> isBroadcaster (snd p)) (sockets st)"
  shows "list_all (\<lambda>p. role (user (snd p)) = js ''metro_streamer'' \<or> \<not> isBroadcaster (snd p))
           (sockets (step jp st e))"
proof (cases e)
  case (Connect i who)
  with assms sockets_on_connection[of st i who] show ?thesis by auto
next
  case (Client i ev data)
  show ?thesis
  proof (cases "map_of (sockets st) i")
    case None
    with assms Client show ?thesis by (simp add: on_event_def)
  next
    case (Some sock)
    from sockets_on_event[OF Some, of jp ev data] obtain f where
      f: "sockets (on_event jp st i ev data) = AList.map_entry i f (sockets st)"
         "user (f sock) = user sock"
         "isBroadcaster (f sock) \<longrightarrow> isBroadcaster sock \<or> role (user sock) = js ''metro_streamer''"
      by blast
    from Some have "(i, sock) \<in> set (sockets st)" by (rule map_of_SomeD)
    with assms have "role (user sock) = js ''metro_streamer'' \<or> \<not> isBroadcaster sock"
      by (auto simp: list_all_iff)
    with f have "role (user (f sock)) = js ''metro_streamer'' \<or> \<not> isBroadcaster (f sock)" by auto
    with Some assms f(1) Client show ?thesis
      by (simp add: list_all_map_entry)
  qed
next
  case (Disconnect i)
  with assms show ?thesis by (simp add: sockets_on_disconnect list_all_delete)
next
  case (Advance t)
  with assms show ?thesis by simp
next
  case Sweep
  with assms show ?thesis by simp
next
  case Destroy
  with assms show ?thesis by simp
next
  case (DbWrite d)
  with assms show ?thesis by simp
qed

lemma streamer_only_run:
  "list_all (\<lambda>p. role (user (snd p)) = js ''metro_streamer'' \<or> \<not> isBroadcaster (snd p))
     (sockets (run jp (init d) evs))"
proof (induction evs rule: rev_induct)
  case Nil
  show ?case by (simp add: run_Nil init_def)
next
  case (snoc e evs)
  then show ?case by (simp add: run_snoc streamer_only_step)
qed

text \<open>
  C4, as amended. In every state reached from the start by any sequence of
  handshakes, client events (\<open>watch_live\<close>, \<open>stop_watching\<close>, \<open>start_streaming\<close>,
  \<open>end_streaming\<close> and the others), disconnects, timer runs, sweeps and table
  writes, a connected socket whose role is not \<open>metro_streamer\<close> has
  \<open>isBroadcaster\<close> unset, so at most one of its flags \<open>isBroadcaster\<close> and
  \<open>isAutoViewer\<close> is true. Nothing of the kind holds for the socket of a
  \<open>metro_streamer\<close>: neither handler looks at the other flag.
\<close>

theorem C4_viewer_flags_exclusive:
  assumes "map_of (sockets (run jp (init d) evs)) i = Some s"
    and "role (user s) \<noteq> js ''metro_streamer''"
  shows "\<not> isBroadcaster s \<and> \<not> (isBroadcaster s \<and> isAutoViewer s)"
proof -
  from assms(1) have "(i, s) \<in> set (sockets (run jp (init d) evs))" by (rule map_of_SomeD)
  with streamer_only_run[of jp d evs] assms(2) show ?thesis
    by (auto simp: list_all_iff)
qed

text \<open>
  The theorem at a run in which a spectator asks to start a stream and then watches
  one: the socket ends as a viewer only.
\<close>

theorem C4_viewer_flags_exclusive_witness:
  "map_of (sockets (run Map.empty (init [stream_row (js ''s1'') (js ''u1'') (js ''active'')])
       [Connect (js ''v'') (Some (spectator (js ''u9''))),
        Client (js ''v'') StartStreaming (uid_payload (js ''s1'')),
        Client (js ''v'') WatchLive (uid_payload (js ''s1''))])) (js ''v'')
     = Some \<lparr>user = spectator (js ''u9''), isBroadcaster = False, streamUid = JUndefined,
             watchingStream = JStr (js ''s1''), isAutoViewer = True\<rparr>
   \<and> role (user \<lparr>user = spectator (js ''u9''), isBroadcaster = False, streamUid = JUndefined,
             watchingStream = JStr (js ''s1''), isAutoViewer = True\<rparr>) \<noteq> js ''metro_streamer''
   \<and> \<not> isBroadcaster \<lparr>user = spectator (js ''u9''), isBroadcaster = False, streamUid = JUndefined,
             watchingStream = JStr (js ''s1''), isAutoViewer = True\<rparr>"
proof -
  have h1: "map_of (sockets (run Map.empty (init [stream_row (js ''s1'') (js ''u1'') (js ''active'')])
       [Connect (js ''v'') (Some (spectator (js ''u9''))),
        Client (js ''v'') StartStreaming (uid_payload (js ''s1'')),
        Client (js ''v'') WatchLive (uid_payload (js ''s1''))])) (js ''v'')
     = Some \<lparr>user = spectator (js ''u9''), isBroadcaster = False, streamUid = JUndefined,
             watchingStream = JStr (js ''s1''), isAutoViewer = True\<rparr>"
    by (simp add: eval_defs)
  have h2: "role (user \<lparr>user = spectator (js ''u9''), isBroadcaster = False, streamUid = JUndefined,
             watchingStream = JStr (js ''s1''), isAutoViewer = True\<rparr>) \<noteq> js ''metro_streamer''"
    by (simp add: spectator_def js_def)
  from C4_viewer_flags_exclusive [OF h1 h2] h1 h2 show ?thesis by blast
qed

text \<open>
  C4 as stated fails: a streamer who starts the stream \<open>s1\<close> and then watches it
  has both flags set on the same socket.
\<close>

theorem C4_both_flags_counterexample:
  "map (\<lambda>p. (isBroadcaster (snd p), isAutoViewer (snd p)))
     (sockets (run Map.empty (init [stream_row (js ''s1'') (js ''u1'') (js ''offline'')])
        [Connect (js ''a'') (Some (streamer (js ''u1''))),
         Client (js ''a'') StartStreaming (uid_payload (js ''s1'')),
         Client (js ''a'') WatchLive (uid_payload (js ''s1''))]))
   = [(True, True)]"
  by (simp add: eval_defs)


section \<open>The scenarios, evaluated\<close>

lemma two_streamers_eval:
  "sockets two_streamers =
     [(js ''b'', \<lparr>user = streamer (js ''u2''), isBroadcaster = True, streamUid = JStr (js ''s2''),
                  watchingStream = JUndefined, isAutoViewer = False\<rparr>),
      (js ''a'', \<lparr>user = streamer (js ''u1''), isBroadcaster = False, streamUid = JUndefined,
                  watchingStream = JUndefined, isAutoViewer = False\<rparr>)]"
  "db two_streamers = [stream_row (js ''s2'') (js ''u2'') (js ''active'')]"
  "activeStreamers two_streamers =
     [(JStr (js ''s2''), \<lparr>si_socketId = js ''b'', si_streamUid = JStr (js ''s2'')\<rparr>)]"
  by (simp_all add: two_streamers_def eval_defs)

lemma live_chat_eval:
  "sockets live_chat =
     [(js ''b'', \<lparr>user = streamer (js ''u1''), isBroadcaster = True, streamUid = JStr (js ''s1''),
                  watchingStream = JUndefined, isAutoViewer = False\<rparr>),
      (js ''v'', \<lparr>user = spectator (js ''u9''), isBroadcaster = False, streamUid = JUndefined,
                  watchingStream = JStr (js ''s1''), isAutoViewer = True\<rparr>)]"
  "rooms live_chat (room_of (JStr (js ''s1''))) = [js ''b'', js ''v'']"
  "db live_chat = [stream_row (js ''s1'') (js ''u1'') (js ''active'')]"
  "activeStreamers live_chat =
     [(JStr (js ''s1''), \<lparr>si_socketId = js ''b'', si_streamUid = JStr (js ''s1'')\<rparr>)]"
  by (simp_all add: live_chat_def eval_defs)

lemma parse_native: "\<not> is_string data \<Longrightarrow> parseSocketData jp st i data = (data, st)"
  by (cases data) (simp_all add: parseSocketData_def)


section \<open>Ending a stream\<close>

text \<open>
  C1 asks that an \<open>end_streaming\<close> naming a stream of another owner is answered
  with an error, leaves the row's status alone and emits no \<open>stream_ended\<close>.
  \<open>handleEndStreaming\<close> sends the ownership query and drops its result: in
  \<open>two_streamers\<close>, where \<open>u2\<close> is live on \<open>s2\<close>, the \<open>end_streaming\<close> of \<open>u1\<close> for
  \<open>s2\<close> sets the row to \<open>offline\<close>, removes the tracking entry of \<open>u2\<close>'s socket and
  sends \<open>stream_ended\<close> to every socket; the only emission is that one, so no error
  is sent.
\<close>

theorem C1_end_streaming_by_non_owner:
  "map status (db two_streamers) = [Some (js ''active'')] \<and>
   map (si_socketId \<circ> snd) (activeStreamers two_streamers) = [js ''b''] \<and>
   map status (db (step Map.empty two_streamers
        (Client (js ''a'') EndStreaming (uid_payload (js ''s2''))))) = [Some (js ''offline'')] \<and>
   activeStreamers (step Map.empty two_streamers
        (Client (js ''a'') EndStreaming (uid_payload (js ''s2'')))) = [] \<and>
   outbox (step Map.empty two_streamers (Client (js ''a'') EndStreaming (uid_payload (js ''s2'')))) =
     outbox two_streamers @
       [([js ''b'', js ''a''],
         StreamEnded (JStr (js ''s2'')) (js ''Stream finalizado por u1'') (js ''manual'')
           (Some (js ''false'')))]"
  by (simp add: two_streamers_def eval_defs)


section \<open>Starting a stream\<close>

text \<open>
  C2, as amended. A \<open>start_streaming\<close> whose payload parses and names the stream
  \<open>k\<close>, from a socket that is not a \<open>metro_streamer\<close>'s or whose user owns no row named
  \<open>k\<close>: in the first case the event has no listener, nothing is emitted and the
  state stays as it is; in the second the socket gets the error \<open>Stream no
  encontrado o no tienes permisos\<close> and nothing else changes. In both cases the
  table, the flags of every socket and the tracked streamers are unchanged.
\<close>

theorem C2_start_streaming_refused:
  assumes sock: "map_of (sockets st) i = Some sock"
    and parsed: "parseSocketData jp st i data = (p, st)" "truthy p"
                "field p (js ''streamUid'') = JStr k"
    and refused: "role (user sock) \<noteq> js ''metro_streamer'' \<or>
                  list_all (\<lambda>r. uid r \<noteq> k \<or> userId r \<noteq> user_id (user sock)) (db st)"
  shows "on_event jp st i StartStreaming data =
           (if role (user sock) = js ''metro_streamer''
            then st\<lparr>outbox := outbox st @
                   [([i], ErrorEv None (js ''Stream no encontrado o no tienes permisos''))]\<rparr>
            else st)
         \<and> db (on_event jp st i StartStreaming data) = db st
         \<and> sockets (on_event jp st i StartStreaming data) = sockets st
         \<and> activeStreamers (on_event jp st i StartStreaming data) = activeStreamers st"
proof (cases "role (user sock) = js ''metro_streamer''")
  case False
  with sock show ?thesis by (simp add: on_event_def)
next
  case True
  with refused have "list_all (\<lambda>r. uid r \<noteq> k \<or> userId r \<noteq> user_id (user sock)) (db st)" by simp
  then have nf: "List.find (\<lambda>r. uid r = k \<and> userId r = user_id (user sock)) (db st) = None"
    by (auto simp: find_None_iff list_all_iff)
  have "on_event jp st i StartStreaming data =
          st\<lparr>outbox := outbox st @
             [([i], ErrorEv None (js ''Stream no encontrado o no tienes permisos''))]\<rparr>"
    using sock parsed nf True
    by (simp add: on_event_def handleStartStreaming_def findFirst_uid_userId_def uid_filter_def
        socket_emit_def emit_def)
  with True show ?thesis by simp
qed


text \<open>
  The theorem at the streamer \<open>u1\<close> asking for the stream of \<open>u2\<close>, and at the
  spectator \<open>u9\<close> asking for the stream \<open>s1\<close>.
\<close>

theorem C2_start_streaming_refused_witness:
  "step Map.empty two_streamers (Client (js ''a'') StartStreaming (uid_payload (js ''s2''))) =
     two_streamers\<lparr>outbox := outbox two_streamers @
        [([js ''a''], ErrorEv None (js ''Stream no encontrado o no tienes permisos''))]\<rparr>
   \<and> step Map.empty live_chat (Client (js ''v'') StartStreaming (uid_payload (js ''s1''))) = live_chat"
proof -
  let ?a = "\<lparr>user = streamer (js ''u1''), isBroadcaster = False, streamUid = JUndefined,
             watchingStream = JUndefined, isAutoViewer = False\<rparr>"
  let ?v = "\<lparr>user = spectator (js ''u9''), isBroadcaster = False, streamUid = JUndefined,
             watchingStream = JStr (js ''s1''), isAutoViewer = True\<rparr>"
  have a: "map_of (sockets two_streamers) (js ''a'') = Some ?a"
    by (simp add: two_streamers_eval js_def)
  have pa: "parseSocketData Map.empty two_streamers (js ''a'') (uid_payload (js ''s2''))
              = (uid_payload (js ''s2''), two_streamers)"
    by (simp add: parse_native uid_payload_def)
  have ra: "role (user ?a) \<noteq> js ''metro_streamer'' \<or>
            list_all (\<lambda>r. uid r \<noteq> js ''s2'' \<or> userId r \<noteq> user_id (user ?a)) (db two_streamers)"
    by (simp add: two_streamers_eval streamer_def stream_row_def js_def)
  have v: "map_of (sockets live_chat) (js ''v'') = Some ?v"
    by (simp add: live_chat_eval js_def)
  have pv: "parseSocketData Map.empty live_chat (js ''v'') (uid_payload (js ''s1''))
              = (uid_payload (js ''s1''), live_chat)"
    by (simp add: parse_native uid_payload_def)
  have rv: "role (user ?v) \<noteq> js ''metro_streamer'' \<or>
            list_all (\<lambda>r. uid r \<noteq> js ''s1'' \<or> userId r \<noteq> user_id (user ?v)) (db live_chat)"
    by (simp add: spectator_def js_def)
  have ua: "truthy (uid_payload (js ''s2''))" "field (uid_payload (js ''s2'')) (js ''streamUid'') = JStr (js ''s2'')"
    by (simp_all add: uid_payload_def)
  have uv: "truthy (uid_payload (js ''s1''))" "field (uid_payload (js ''s1'')) (js ''streamUid'') = JStr (js ''s1'')"
    by (simp_all add: uid_payload_def)
  from C2_start_streaming_refused [OF a pa ua ra] C2_start_streaming_refused [OF v pv uv rv]
  show ?thesis
    by (simp add: streamer_def spectator_def js_def)
qed


text \<open>
  C2 as stated fails in its first part: the \<open>start_streaming\<close> of a spectator is
  answered by nothing at all, no permission error is emitted.
\<close>

theorem C2_no_permission_error_counterexample:
  "step Map.empty live_chat (Client (js ''v'') StartStreaming (uid_payload (js ''s1''))) = live_chat"
  by (simp add: on_event_def live_chat_eval spectator_def js_def)


section \<open>Viewer counts\<close>

text \<open>
  C3 asks that both the snapshot sent to one socket and the debounced broadcast
  report, for each stream, the number of room members with \<open>isAutoViewer\<close> set and
  \<open>isBroadcaster\<close> unset. \<open>broadcastUpdatedStreamsList\<close> counts exactly those;
  \<open>sendInitialStreamsList\<close> counts the members whose \<open>watchingStream\<close> is the
  stream instead. In \<open>switched_viewer\<close> the room of \<open>s1\<close> has one such member, the
  snapshot sent to a socket that connects reports 0 viewers for \<open>s1\<close>, and the
  broadcast that the pending timeout sends from the same state reports 1.
\<close>

theorem C3_initial_snapshot_count:
  "length (filter is_viewer (fetchSockets switched_viewer (room_of (JStr (js ''s1''))))) = 1 \<and>
   snd (last (outbox (step Map.empty switched_viewer
                        (Connect (js ''w'') (Some (spectator (js ''u8''))))))) =
     StreamsList [StreamEntry (stream_row (js ''s1'') (js ''u1'') (js ''active'')) 0 DEFAULT_AVATAR,
                  StreamEntry (stream_row (js ''s2'') (js ''u2'') (js ''active'')) 1 DEFAULT_AVATAR]
       2 False \<and>
   snd (last (outbox (step Map.empty switched_viewer (Advance 100)))) =
     StreamsList [StreamEntry (stream_row (js ''s1'') (js ''u1'') (js ''active'')) 1 DEFAULT_AVATAR,
                  StreamEntry (stream_row (js ''s2'') (js ''u2'') (js ''active'')) 1 DEFAULT_AVATAR]
       2 True"
  by (simp add: switched_viewer_def eval_defs)



section \<open>Chat\<close>

lemma map_fst_map_filter_Pair:
  "map fst (List.map_filter (\<lambda>i. map_option (Pair i) (m i)) xs) = filter (\<lambda>j. m j \<noteq> None) xs"
  by (induction xs) (auto simp: List.map_filter_def)

lemma fetchSockets_ids:
  "map fst (fetchSockets st room) = filter (\<lambda>j. map_of (sockets st) j \<noteq> None) (rooms st room)"
  by (simp add: fetchSockets_def map_fst_map_filter_Pair)

lemma string_ok: "(truthy v \<and> is_string v) = (\<exists>k. v = JStr k \<and> k \<noteq> [])"
  by (cases v) auto

lemma trim_Nil [simp]: "trim [] = []"
  by (simp add: trim_def)

lemma message_ok:
  "(truthy v \<and> is_string v \<and> trim (tpl v) \<noteq> []) = (\<exists>m. v = JStr m \<and> trim m \<noteq> [])"
  by (cases v) auto

text \<open>What \<open>handleSendMessage\<close> does with a payload that passes both checks.\<close>

lemma send_message_accepted:
  assumes sock: "map_of (sockets st) i = Some sock"
    and parsed: "parseSocketData jp st i data = (p, st)" "truthy p"
    and k: "field p (js ''streamUid'') = JStr k" "k \<noteq> []"
    and m: "field p (js ''message'') = JStr m" "trim m \<noteq> []"
  shows "on_event jp st i SendMessage data =
           st\<lparr>outbox := outbox st @
              [(filter (\<lambda>j. map_of (sockets st) j \<noteq> None) (rooms st (room_of (JStr k))),
                NewMessage (JStr k)
                  (ChatUser (user_id (user sock))
                     (if isBroadcaster sock then displayName (user sock) @ host_suffix
                      else displayName (user sock))
                     (metroUsername (user sock)) (role (user sock)) (getUserAvatar (user sock)))
                  (trim m))]\<rparr>"
proof -
  have "m \<noteq> []" using m(2) by auto
  then show ?thesis
    using sock parsed k m
    by (simp add: on_event_def handleSendMessage_def io_in_emit_def emit_def Let_def fetchSockets_ids)
qed

lemma send_message_rejected:
  assumes sock: "map_of (sockets st) i = Some sock"
    and parsed: "parseSocketData jp st i data = (p, st)" "truthy p"
    and bad: "\<not> (\<exists>k. field p (js ''streamUid'') = JStr k \<and> k \<noteq> []) \<or>
              \<not> (\<exists>m. field p (js ''message'') = JStr m \<and> trim m \<noteq> [])"
  shows "on_event jp st i SendMessage data =
           st\<lparr>outbox := outbox st @
              [([i], ErrorEv (Some (js ''send-message''))
                       (if \<exists>k. field p (js ''streamUid'') = JStr k \<and> k \<noteq> []
                        then msg_empty else msg_invalid_id))]\<rparr>"
  using sock parsed bad string_ok[of "field p (js ''streamUid'')"]
    message_ok[of "field p (js ''message'')"]
  by (auto simp: on_event_def handleSendMessage_def socket_emit_def emit_def Let_def)

lemma send_message_unparsable:
  assumes sock: "map_of (sockets st) i = Some sock"
    and "jp s = None" "jp (fixJson s) = None"
  shows "on_event jp st i SendMessage (JStr s) =
           st\<lparr>outbox := outbox st @ [([i], ErrorEv None msg_invalid_format)]\<rparr>"
  using assms
  by (simp add: on_event_def handleSendMessage_def parseSocketData_def socket_emit_def emit_def)

lemma live_chat_v:
  "map_of (sockets live_chat) (js ''v'') =
     Some \<lparr>user = spectator (js ''u9''), isBroadcaster = False, streamUid = JUndefined,
            watchingStream = JStr (js ''s1''), isAutoViewer = True\<rparr>"
  by (simp add: live_chat_eval js_def)

lemma live_chat_b:
  "map_of (sockets live_chat) (js ''b'') =
     Some \<lparr>user = streamer (js ''u1''), isBroadcaster = True, streamUid = JStr (js ''s1''),
            watchingStream = JUndefined, isAutoViewer = False\<rparr>"
  by (simp add: live_chat_eval js_def)

lemma chat_payload_fields:
  "truthy (chat_payload k m)" "\<not> is_string (chat_payload k m)"
  "field (chat_payload k m) (js ''streamUid'') = JStr k"
  "field (chat_payload k m) (js ''message'') = JStr m"
  by (simp_all add: chat_payload_def js_def)

lemma trim_examples: "trim (js ''  '') = []" "trim (js '' hi '') = js ''hi''"
  by (simp_all add: trim_def is_ws_def js_def)


text \<open>
  C9, as amended. For every \<open>send-message\<close> event whose payload is, or parses to,
  a truthy value \<open>p\<close>: when \<open>p.streamUid\<close> is not a non-empty string, or \<open>p.message\<close> is
  not a string with something left after trimming, the sender alone gets one
  \<open>error\<close> whose \<open>event\<close> is \<open>send-message\<close>, and nothing else is emitted, so no
  \<open>new-message\<close>; when both are fine, the one emission is a \<open>new-message\<close> carrying
  the trimmed message. A string payload that neither \<open>JSON.parse\<close> nor the repaired
  text parses is answered by the error of \<open>parseSocketData\<close>, which names no event,
  and again by nothing else.
\<close>

theorem C9_send_message_validation:
  assumes sock: "map_of (sockets st) i = Some sock"
  shows "(parseSocketData jp st i data = (p, st) \<and> truthy p \<and>
            (\<not> (\<exists>k. field p (js ''streamUid'') = JStr k \<and> k \<noteq> []) \<or>
             \<not> (\<exists>m. field p (js ''message'') = JStr m \<and> trim m \<noteq> []))
          \<longrightarrow> on_event jp st i SendMessage data =
                  st\<lparr>outbox := outbox st @
                     [([i], ErrorEv (Some (js ''send-message''))
                              (if \<exists>k. field p (js ''streamUid'') = JStr k \<and> k \<noteq> []
                               then msg_empty else msg_invalid_id))]\<rparr>)
       \<and> (parseSocketData jp st i data = (p, st) \<and> truthy p \<and>
            field p (js ''streamUid'') = JStr k \<and> k \<noteq> [] \<and>
            field p (js ''message'') = JStr m \<and> trim m \<noteq> []
          \<longrightarrow> (\<exists>to u. on_event jp st i SendMessage data =
                  st\<lparr>outbox := outbox st @ [(to, NewMessage (JStr k) u (trim m))]\<rparr>))
       \<and> (jp s = None \<and> jp (fixJson s) = None
          \<longrightarrow> on_event jp st i SendMessage (JStr s) =
                  st\<lparr>outbox := outbox st @ [([i], ErrorEv None msg_invalid_format)]\<rparr>)"
proof (intro conjI impI)
  assume "parseSocketData jp st i data = (p, st) \<and> truthy p \<and>
            (\<not> (\<exists>k. field p (js ''streamUid'') = JStr k \<and> k \<noteq> []) \<or>
             \<not> (\<exists>m. field p (js ''message'') = JStr m \<and> trim m \<noteq> []))"
  then show "on_event jp st i SendMessage data =
           st\<lparr>outbox := outbox st @
              [([i], ErrorEv (Some (js ''send-message''))
                       (if \<exists>k. field p (js ''streamUid'') = JStr k \<and> k \<noteq> []
                        then msg_empty else msg_invalid_id))]\<rparr>"
    using send_message_rejected[OF sock, of jp "data" p] by blast
next
  assume "parseSocketData jp st i data = (p, st) \<and> truthy p \<and>
            field p (js ''streamUid'') = JStr k \<and> k \<noteq> [] \<and>
            field p (js ''message'') = JStr m \<and> trim m \<noteq> []"
  then show "\<exists>to u. on_event jp st i SendMessage data =
                  st\<lparr>outbox := outbox st @ [(to, NewMessage (JStr k) u (trim m))]\<rparr>"
    using send_message_accepted[OF sock, of jp "data" p k m] by blast
next
  assume "jp s = None \<and> jp (fixJson s) = None"
  then show "on_event jp st i SendMessage (JStr s) =
                  st\<lparr>outbox := outbox st @ [([i], ErrorEv None msg_invalid_format)]\<rparr>"
    using send_message_unparsable[OF sock, of jp s] by blast
qed


text \<open>
  The theorem in \<open>live_chat\<close>: the spectator sends a blank message, then \<open>" hi "\<close>,
  then the text \<open>{\<close>, which is not JSON before or after the repair.
\<close>

theorem C9_send_message_validation_witness:
  "step Map.empty live_chat (Client (js ''v'') SendMessage (chat_payload (js ''s1'') (js ''  ''))) =
     live_chat\<lparr>outbox := outbox live_chat @
        [([js ''v''], ErrorEv (Some (js ''send-message'')) msg_empty)]\<rparr>
   \<and> (\<exists>to u. step Map.empty live_chat
                (Client (js ''v'') SendMessage (chat_payload (js ''s1'') (js '' hi ''))) =
        live_chat\<lparr>outbox := outbox live_chat @ [(to, NewMessage (JStr (js ''s1'')) u (js ''hi''))]\<rparr>)
   \<and> step Map.empty live_chat (Client (js ''v'') SendMessage (JStr (js ''{''))) =
       live_chat\<lparr>outbox := outbox live_chat @ [([js ''v''], ErrorEv None msg_invalid_format)]\<rparr>"
proof -
  let ?blank = "chat_payload (js ''s1'') (js ''  '')"
  let ?hi = "chat_payload (js ''s1'') (js '' hi '')"
  have p1: "parseSocketData Map.empty live_chat (js ''v'') ?blank = (?blank, live_chat)"
    by (simp add: parse_native chat_payload_fields)
  have bad: "\<not> (\<exists>k. field ?blank (js ''streamUid'') = JStr k \<and> k \<noteq> []) \<or>
             \<not> (\<exists>m. field ?blank (js ''message'') = JStr m \<and> trim m \<noteq> [])"
    by (simp add: chat_payload_fields trim_examples)
  have s1: "js ''s1'' \<noteq> []" by (simp add: js_def)
  have ok1: "\<exists>k. field ?blank (js ''streamUid'') = JStr k \<and> k \<noteq> []"
    by (simp add: chat_payload_fields s1)
  have p2: "parseSocketData Map.empty live_chat (js ''v'') ?hi = (?hi, live_chat)"
    by (simp add: parse_native chat_payload_fields)
  have good: "js ''s1'' \<noteq> []" "trim (js '' hi '') \<noteq> []"
    by (simp_all add: trim_examples) (simp_all add: js_def)
  have np: "Map.empty (js ''{'') = (None :: jsval option)"
           "Map.empty (fixJson (js ''{'')) = (None :: jsval option)"
    by simp_all
  from C9_send_message_validation [OF live_chat_v,
      of Map.empty ?blank ?blank "js ''s1''" "js '' hi ''" "js ''{''"] p1 bad ok1
  have A: "on_event Map.empty live_chat (js ''v'') SendMessage ?blank =
     live_chat\<lparr>outbox := outbox live_chat @
        [([js ''v''], ErrorEv (Some (js ''send-message'')) msg_empty)]\<rparr>"
    by (simp add: chat_payload_fields)
  from C9_send_message_validation [OF live_chat_v,
      of Map.empty ?hi ?hi "js ''s1''" "js '' hi ''" "js ''{''"] p2 good np
  have B: "\<exists>to u. on_event Map.empty live_chat (js ''v'') SendMessage ?hi =
        live_chat\<lparr>outbox := outbox live_chat @ [(to, NewMessage (JStr (js ''s1'')) u (js ''hi''))]\<rparr>"
    and C: "on_event Map.empty live_chat (js ''v'') SendMessage (JStr (js ''{'')) =
       live_chat\<lparr>outbox := outbox live_chat @ [([js ''v''], ErrorEv None msg_invalid_format)]\<rparr>"
    by (simp_all add: chat_payload_fields trim_examples)
  from A B C show ?thesis by simp
qed


text \<open>
  C9 as stated fails: a \<open>send-message\<close> whose payload is \<open>null\<close> has no \<open>streamUid\<close>
  at all and is answered by nothing; one whose payload is the text \<open>{\<close> is answered
  by an error that does not name the event.
\<close>

theorem C9_silent_or_unnamed_counterexample:
  "step Map.empty live_chat (Client (js ''v'') SendMessage JNull) = live_chat
   \<and> step Map.empty live_chat (Client (js ''v'') SendMessage (JStr (js ''{''))) =
       live_chat\<lparr>outbox := outbox live_chat @ [([js ''v''], ErrorEv None msg_invalid_format)]\<rparr>"
  by (simp add: on_event_def live_chat_v handleSendMessage_def parseSocketData_def socket_emit_def
      emit_def)


text \<open>
  C10. For every \<open>send-message\<close> that passes the checks, the one emission is a
  \<open>new-message\<close> whose \<open>user.displayName\<close> is the sender's display name followed by
  a blank and, in brackets, the word Anfitrion with an acute accent on its last o
  (code unit F3) when the sender's socket has \<open>isBroadcaster\<close> set, and the bare
  display name otherwise; it goes to every connected member of the room
  \<open>stream-\<close>\<open>k\<close>, and nobody is taken out: a sender who is in that room is among
  the receivers of the emission.
\<close>

theorem C10_new_message_envelope:
  assumes sock: "map_of (sockets st) i = Some sock"
    and parsed: "parseSocketData jp st i data = (p, st)" "truthy p"
    and k: "field p (js ''streamUid'') = JStr k" "k \<noteq> []"
    and m: "field p (js ''message'') = JStr m" "trim m \<noteq> []"
  shows "on_event jp st i SendMessage data =
           st\<lparr>outbox := outbox st @
              [(filter (\<lambda>j. map_of (sockets st) j \<noteq> None) (rooms st (js ''stream-'' @ k)),
                NewMessage (JStr k)
                  (ChatUser (user_id (user sock))
                     (if isBroadcaster sock
                      then displayName (user sock) @ js '' (Anfitri'' @ [0xF3] @ js ''n)''
                      else displayName (user sock))
                     (metroUsername (user sock)) (role (user sock)) (getUserAvatar (user sock)))
                  (trim m))]\<rparr>
         \<and> (i \<in> set (rooms st (js ''stream-'' @ k)) \<longrightarrow>
              i \<in> set (fst (last (outbox (on_event jp st i SendMessage data)))))"
  using send_message_accepted [OF assms] sock by (simp add: host_suffix_def room_of_def)


text \<open>
  The theorem in \<open>live_chat\<close>, for a message of the broadcaster and one of the
  spectator: both are in the room of \<open>s1\<close> and both receive either message.
\<close>

theorem C10_new_message_envelope_witness:
  "step Map.empty live_chat (Client (js ''b'') SendMessage (chat_payload (js ''s1'') (js '' hi ''))) =
     live_chat\<lparr>outbox := outbox live_chat @
        [([js ''b'', js ''v''],
          NewMessage (JStr (js ''s1''))
            (ChatUser (js ''u1'') (js ''u1 (Anfitri'' @ [0xF3] @ js ''n)'') None
               (js ''metro_streamer'') DEFAULT_AVATAR)
            (js ''hi''))]\<rparr>
   \<and> step Map.empty live_chat (Client (js ''v'') SendMessage (chat_payload (js ''s1'') (js '' hi ''))) =
     live_chat\<lparr>outbox := outbox live_chat @
        [([js ''b'', js ''v''],
          NewMessage (JStr (js ''s1''))
            (ChatUser (js ''u9'') (js ''u9'') None (js ''metro_user'') DEFAULT_AVATAR)
            (js ''hi''))]\<rparr>
   \<and> js ''b'' \<in> set (rooms live_chat (js ''stream-s1''))
   \<and> js ''b'' \<in> set (fst (last (outbox (step Map.empty live_chat
         (Client (js ''b'') SendMessage (chat_payload (js ''s1'') (js '' hi '')))))))
   \<and> js ''v'' \<in> set (rooms live_chat (js ''stream-s1''))
   \<and> js ''v'' \<in> set (fst (last (outbox (step Map.empty live_chat
         (Client (js ''v'') SendMessage (chat_payload (js ''s1'') (js '' hi '')))))))"
proof -
  let ?hi = "chat_payload (js ''s1'') (js '' hi '')"
  have pb: "parseSocketData Map.empty live_chat (js ''b'') ?hi = (?hi, live_chat)"
    and pv: "parseSocketData Map.empty live_chat (js ''v'') ?hi = (?hi, live_chat)"
    by (simp_all add: parse_native chat_payload_fields)
  have good: "js ''s1'' \<noteq> []" "trim (js '' hi '') \<noteq> []"
    by (simp_all add: trim_examples) (simp_all add: js_def)
  have room: "rooms live_chat (js ''stream-'' @ js ''s1'') = [js ''b'', js ''v'']"
    using live_chat_eval(2) by (simp add: room_of_def)
  have room': "rooms live_chat (js ''stream-s1'') = [js ''b'', js ''v'']"
    using room by (simp add: js_def)
  have name: "js ''u1'' @ js '' (Anfitri'' @ [0xF3] @ js ''n)'' = js ''u1 (Anfitri'' @ [0xF3] @ js ''n)''"
    by (simp add: js_def)
  have recv: "filter (\<lambda>j. map_of (sockets live_chat) j \<noteq> None)
                (rooms live_chat (js ''stream-'' @ js ''s1'')) = [js ''b'', js ''v'']"
    by (simp add: room live_chat_b live_chat_v)
  note b = C10_new_message_envelope [OF live_chat_b pb chat_payload_fields(1) chat_payload_fields(3)
      good(1) chat_payload_fields(4) good(2)]
  note v = C10_new_message_envelope [OF live_chat_v pv chat_payload_fields(1) chat_payload_fields(3)
      good(1) chat_payload_fields(4) good(2)]
  from b v recv name
  have eqs: "step Map.empty live_chat (Client (js ''b'') SendMessage ?hi) =
     live_chat\<lparr>outbox := outbox live_chat @
        [([js ''b'', js ''v''],
          NewMessage (JStr (js ''s1''))
            (ChatUser (js ''u1'') (js ''u1 (Anfitri'' @ [0xF3] @ js ''n)'') None
               (js ''metro_streamer'') DEFAULT_AVATAR)
            (js ''hi''))]\<rparr>"
     "step Map.empty live_chat (Client (js ''v'') SendMessage ?hi) =
     live_chat\<lparr>outbox := outbox live_chat @
        [([js ''b'', js ''v''],
          NewMessage (JStr (js ''s1''))
            (ChatUser (js ''u9'') (js ''u9'') None (js ''metro_user'') DEFAULT_AVATAR)
            (js ''hi''))]\<rparr>"
    by (simp_all add: trim_examples getUserAvatar_def streamer_def spectator_def)
  have inb: "js ''b'' \<in> set (rooms live_chat (js ''stream-'' @ js ''s1''))"
    and inv: "js ''v'' \<in> set (rooms live_chat (js ''stream-'' @ js ''s1''))"
    by (simp_all add: room)
  from b inb have lb: "js ''b'' \<in> set (fst (last (outbox (step Map.empty live_chat
         (Client (js ''b'') SendMessage ?hi)))))"
    unfolding step.simps by blast
  from v inv have lv: "js ''v'' \<in> set (fst (last (outbox (step Map.empty live_chat
         (Client (js ''v'') SendMessage ?hi)))))"
    unfolding step.simps by blast
  from eqs lb lv show ?thesis by (simp add: room')
qed


section \<open>The tracked streamers\<close>

lemma activeStreamers_fire [simp]: "activeStreamers (fire tm st) = activeStreamers st"
  by (simp add: fire_def)

lemma activeStreamers_fold_fire [simp]: "activeStreamers (fold fire tms st) = activeStreamers st"
  by (induction tms arbitrary: st) simp_all

lemma activeStreamers_advance [simp]: "activeStreamers (advance t st) = activeStreamers st"
  by (simp add: advance_def Let_def)

lemma activeStreamers_cleanup [simp]:
  "activeStreamers (cleanupOrphanedStream st k j) = AList.delete k (activeStreamers st)"
  by (simp add: cleanupOrphanedStream_def Let_def split: sum.splits)

lemma distinct_sweep_fold:
  "distinct (map fst (activeStreamers st)) \<Longrightarrow>
   distinct (map fst (activeStreamers (fold sweep_step es st)))"
  by (induction es arbitrary: st) (simp_all add: sweep_step_def distinct_delete split: option.splits)

lemma distinct_handleDisconnect:
  "distinct (map fst (activeStreamers st)) \<Longrightarrow>
   distinct (map fst (activeStreamers (handleDisconnect st i sock)))"
  by (simp add: handleDisconnect_def Let_def distinct_delete)

lemma distinct_on_event:
  assumes "distinct (map fst (activeStreamers st))"
  shows "distinct (map fst (activeStreamers (on_event jp st i ev data)))"
proof (cases "map_of (sockets st) i")
  case None
  with assms show ?thesis by (simp add: on_event_def)
next
  case (Some sock)
  show ?thesis
  proof (cases rule: parse_cases[of jp st i data])
    case (parsed p)
    with assms Some show ?thesis
      by (cases ev)
         (auto simp: on_event_def handleWatchLive_def handleStopWatching_def handleSendMessage_def
            handleTyping_def handleStartStreaming_def handleEndStreaming_def registerActiveStreamer_def
            io_in_emit_def socket_to_emit_def Let_def distinct_delete distinct_update
            split: sum.splits option.splits jsval.splits)
  next
    case failed
    with assms Some show ?thesis
      by (cases ev)
         (auto simp: on_event_def handleWatchLive_def handleStopWatching_def handleSendMessage_def
            handleTyping_def handleStartStreaming_def handleEndStreaming_def
            socket_to_emit_def Let_def split: jsval.splits)
  qed
qed

lemma distinct_step:
  assumes "distinct (map fst (activeStreamers st))"
  shows "distinct (map fst (activeStreamers (step jp st e)))"
proof (cases e)
  case (Connect i who)
  with assms show ?thesis
    by (simp add: on_connection_def sendUserInfo_def Let_def split: option.splits)
next
  case (Client i ev data)
  with assms show ?thesis by (simp add: distinct_on_event)
next
  case (Disconnect i)
  with assms show ?thesis
    by (simp add: on_disconnect_def distinct_handleDisconnect split: option.splits)
next
  case (Advance t)
  with assms show ?thesis by simp
next
  case Sweep
  with assms show ?thesis by (simp add: checkDisconnectedStreamers_def distinct_sweep_fold)
next
  case Destroy
  then show ?thesis by (simp add: destroy_def Let_def)
next
  case (DbWrite d)
  with assms show ?thesis by simp
qed

lemma distinct_run: "distinct (map fst (activeStreamers (run jp (init d) evs)))"
proof (induction evs rule: rev_induct)
  case Nil
  show ?case by (simp add: run_Nil init_def)
next
  case (snoc e evs)
  then show ?case by (simp add: run_snoc distinct_step)
qed

text \<open>A \<open>start_streaming\<close> that goes through.\<close>

lemma update_status_exists:
  "list_ex (\<lambda>r. uid r = k) d \<Longrightarrow>
   update_status d (JStr k) s = Inr (map (\<lambda>r. if uid r = k then r\<lparr>status := Some s\<rparr> else r) d)"
  by (simp add: update_status_def)

lemma start_streaming_accepted:
  assumes sock: "map_of (sockets st) i = Some sock"
    and role: "role (user sock) = js ''metro_streamer''"
    and owned: "list_ex (\<lambda>r. uid r = k \<and> userId r = user_id (user sock)) (db st)"
  shows "on_event jp st i StartStreaming (uid_payload k) =
     socket_emit i (StreamStarted (JStr k) (js ''true''))
       (scheduleBroadcastUpdate
         (registerActiveStreamer i (JStr k)
           (socket_join i (room_of (JStr k))
             (upd_socket i (\<lambda>s. s\<lparr>isBroadcaster := True, streamUid := JStr k\<rparr>)
               (st\<lparr>db := map (\<lambda>r. if uid r = k then r\<lparr>status := Some (js ''active'')\<rparr> else r)
                              (db st)\<rparr>)))))"
proof -
  from owned have ex: "list_ex (\<lambda>r. uid r = k) (db st)"
    by (auto simp: list_ex_iff)
  from owned obtain r where
    "List.find (\<lambda>r. uid r = k \<and> userId r = user_id (user sock)) (db st) = Some r"
    by (cases "List.find (\<lambda>r. uid r = k \<and> userId r = user_id (user sock)) (db st)")
       (auto simp: find_None_iff list_ex_iff)
  with sock role ex show ?thesis
    by (simp add: on_event_def handleStartStreaming_def parse_native uid_payload_def
        findFirst_uid_userId_def uid_filter_def update_status_exists Let_def)
qed


lemma activeStreamers_register [simp]:
  "activeStreamers (registerActiveStreamer i k st) =
     AList.update k \<lparr>si_socketId = i, si_streamUid = k\<rparr> (activeStreamers st)"
  by (simp add: registerActiveStreamer_def)

lemma owned_after_update:
  "list_ex (\<lambda>r. uid r = k \<and> userId r = u) (map (\<lambda>r. if uid r = k then r\<lparr>status := s\<rparr> else r) d)
     = list_ex (\<lambda>r. uid r = k \<and> userId r = u) d"
  by (induction d) auto

lemma two_starts:
  assumes s1: "map_of (sockets st) i1 = Some s1" and s2: "map_of (sockets st) i2 = Some s2"
    and neq: "i1 \<noteq> i2"
    and roles: "role (user s1) = js ''metro_streamer''" "role (user s2) = js ''metro_streamer''"
    and owned: "list_ex (\<lambda>r. uid r = k \<and> userId r = user_id (user s1)) (db st)"
               "user_id (user s2) = user_id (user s1)"
  shows "map_of (activeStreamers (on_event jp (on_event jp st i1 StartStreaming (uid_payload k))
                                   i2 StartStreaming (uid_payload k))) (JStr k)
           = Some \<lparr>si_socketId = i2, si_streamUid = JStr k\<rparr>"
    and "map_of (sockets (on_event jp (on_event jp st i1 StartStreaming (uid_payload k))
                                   i2 StartStreaming (uid_payload k))) i1
           = Some (s1\<lparr>isBroadcaster := True, streamUid := JStr k\<rparr>)"
    and "map_of (sockets (on_event jp (on_event jp st i1 StartStreaming (uid_payload k))
                                   i2 StartStreaming (uid_payload k))) i2
           = Some (s2\<lparr>isBroadcaster := True, streamUid := JStr k\<rparr>)"
proof -
  let ?st1 = "on_event jp st i1 StartStreaming (uid_payload k)"
  note first = start_streaming_accepted [OF s1 roles(1) owned(1), of jp]
  have s2': "map_of (sockets ?st1) i2 = Some s2"
    using s2 neq by (simp add: first map_of_map_entry)
  have s1': "map_of (sockets ?st1) i1 = Some (s1\<lparr>isBroadcaster := True, streamUid := JStr k\<rparr>)"
    using s1 by (simp add: first map_of_map_entry)
  have owned': "list_ex (\<lambda>r. uid r = k \<and> userId r = user_id (user s2)) (db ?st1)"
    using owned by (simp add: first owned_after_update)
  note second = start_streaming_accepted [OF s2' roles(2) owned', of jp]
  show "map_of (activeStreamers (on_event jp ?st1 i2 StartStreaming (uid_payload k))) (JStr k)
           = Some \<lparr>si_socketId = i2, si_streamUid = JStr k\<rparr>"
    by (simp add: second update_conv')
  show "map_of (sockets (on_event jp ?st1 i2 StartStreaming (uid_payload k))) i1
           = Some (s1\<lparr>isBroadcaster := True, streamUid := JStr k\<rparr>)"
    using s1' neq by (simp add: second map_of_map_entry)
  show "map_of (sockets (on_event jp ?st1 i2 StartStreaming (uid_payload k))) i2
           = Some (s2\<lparr>isBroadcaster := True, streamUid := JStr k\<rparr>)"
    using s2' by (simp add: second map_of_map_entry)
qed

lemma same_owner_twice_eval:
  "sockets same_owner_twice =
     [(js ''a1'', \<lparr>user = streamer (js ''u1''), isBroadcaster = False, streamUid = JUndefined,
                  watchingStream = JUndefined, isAutoViewer = False\<rparr>),
      (js ''a2'', \<lparr>user = streamer (js ''u1''), isBroadcaster = False, streamUid = JUndefined,
                  watchingStream = JUndefined, isAutoViewer = False\<rparr>)]"
  "db same_owner_twice = [stream_row (js ''s1'') (js ''u1'') (js ''offline'')]"
  by (simp_all add: same_owner_twice_def eval_defs)


text \<open>
  C5, as amended. In every reachable state \<open>activeStreamers\<close> has at most one entry
  for a stream id, so it tracks one socket per stream. After two
  \<open>start_streaming\<close> for the stream \<open>k\<close> that go through, one after the other, from
  two sockets of the owner, the entry for \<open>k\<close> names the second socket; both
  sockets keep \<open>isBroadcaster\<close> set with \<open>streamUid\<close> \<open>k\<close>, since the handler never
  touches another socket's flags.
\<close>

theorem C5_registry_tracks_latest:
  "distinct (map fst (activeStreamers (run jp (init d) evs)))
   \<and> (map_of (sockets st) i1 = Some s1 \<and> map_of (sockets st) i2 = Some s2 \<and> i1 \<noteq> i2 \<and>
      role (user s1) = js ''metro_streamer'' \<and> role (user s2) = js ''metro_streamer'' \<and>
      user_id (user s2) = user_id (user s1) \<and>
      list_ex (\<lambda>r. uid r = k \<and> userId r = user_id (user s1)) (db st)
      \<longrightarrow> map_of (activeStreamers (on_event jp (on_event jp st i1 StartStreaming (uid_payload k))
                                     i2 StartStreaming (uid_payload k))) (JStr k)
             = Some \<lparr>si_socketId = i2, si_streamUid = JStr k\<rparr>
         \<and> map_of (sockets (on_event jp (on_event jp st i1 StartStreaming (uid_payload k))
                                     i2 StartStreaming (uid_payload k))) i1
             = Some (s1\<lparr>isBroadcaster := True, streamUid := JStr k\<rparr>)
         \<and> map_of (sockets (on_event jp (on_event jp st i1 StartStreaming (uid_payload k))
                                     i2 StartStreaming (uid_payload k))) i2
             = Some (s2\<lparr>isBroadcaster := True, streamUid := JStr k\<rparr>))"
proof (intro conjI impI)
  show "distinct (map fst (activeStreamers (run jp (init d) evs)))"
    by (rule distinct_run)
next
  assume h: "map_of (sockets st) i1 = Some s1 \<and> map_of (sockets st) i2 = Some s2 \<and> i1 \<noteq> i2 \<and>
      role (user s1) = js ''metro_streamer'' \<and> role (user s2) = js ''metro_streamer'' \<and>
      user_id (user s2) = user_id (user s1) \<and>
      list_ex (\<lambda>r. uid r = k \<and> userId r = user_id (user s1)) (db st)"
  then have a: "map_of (sockets st) i1 = Some s1" and b: "map_of (sockets st) i2 = Some s2"
    and c: "i1 \<noteq> i2" and r1: "role (user s1) = js ''metro_streamer''"
    and r2: "role (user s2) = js ''metro_streamer''"
    and o: "list_ex (\<lambda>r. uid r = k \<and> userId r = user_id (user s1)) (db st)"
    and u: "user_id (user s2) = user_id (user s1)"
    by simp_all
  show "map_of (activeStreamers (on_event jp (on_event jp st i1 StartStreaming (uid_payload k))
                                     i2 StartStreaming (uid_payload k))) (JStr k)
             = Some \<lparr>si_socketId = i2, si_streamUid = JStr k\<rparr>"
    by (rule two_starts(1) [OF a b c r1 r2 o u])
  show "map_of (sockets (on_event jp (on_event jp st i1 StartStreaming (uid_payload k))
                                     i2 StartStreaming (uid_payload k))) i1
             = Some (s1\<lparr>isBroadcaster := True, streamUid := JStr k\<rparr>)"
    by (rule two_starts(2) [OF a b c r1 r2 o u])
  show "map_of (sockets (on_event jp (on_event jp st i1 StartStreaming (uid_payload k))
                                     i2 StartStreaming (uid_payload k))) i2
             = Some (s2\<lparr>isBroadcaster := True, streamUid := JStr k\<rparr>)"
    by (rule two_starts(3) [OF a b c r1 r2 o u])
qed


text \<open>The theorem at the two sockets of \<open>same_owner_twice\<close>.\<close>

theorem C5_registry_tracks_latest_witness:
  "distinct (map fst (activeStreamers same_owner_twice))
   \<and> map_of (activeStreamers
         (step Map.empty (step Map.empty same_owner_twice
            (Client (js ''a1'') StartStreaming (uid_payload (js ''s1''))))
            (Client (js ''a2'') StartStreaming (uid_payload (js ''s1''))))) (JStr (js ''s1''))
       = Some \<lparr>si_socketId = js ''a2'', si_streamUid = JStr (js ''s1'')\<rparr>"
proof -
  let ?s = "\<lparr>user = streamer (js ''u1''), isBroadcaster = False, streamUid = JUndefined,
             watchingStream = JUndefined, isAutoViewer = False\<rparr>"
  have h: "map_of (sockets same_owner_twice) (js ''a1'') = Some ?s"
          "map_of (sockets same_owner_twice) (js ''a2'') = Some ?s"
          "js ''a1'' \<noteq> js ''a2''"
          "role (user ?s) = js ''metro_streamer''"
          "list_ex (\<lambda>r. uid r = js ''s1'' \<and> userId r = user_id (user ?s)) (db same_owner_twice)"
    by (simp_all add: same_owner_twice_eval streamer_def stream_row_def js_def)
  from C5_registry_tracks_latest [of Map.empty "[stream_row (js ''s1'') (js ''u1'') (js ''offline'')]"
      "[Connect (js ''a1'') (Some (streamer (js ''u1''))), Connect (js ''a2'') (Some (streamer (js ''u1'')))]"
      same_owner_twice "js ''a1''" ?s "js ''a2''" ?s "js ''s1''"] h
  show ?thesis
    by (simp add: same_owner_twice_def)
qed


text \<open>
  C5 as stated fails: after the two calls both sockets hold broadcaster status
  for \<open>s1\<close>, not only the later one.
\<close>

theorem C5_two_broadcasters_counterexample:
  "map (\<lambda>p. (fst p, isBroadcaster (snd p), streamUid (snd p)))
     (sockets (step Map.empty (step Map.empty same_owner_twice
            (Client (js ''a1'') StartStreaming (uid_payload (js ''s1''))))
            (Client (js ''a2'') StartStreaming (uid_payload (js ''s1'')))))
   = [(js ''a1'', True, JStr (js ''s1'')), (js ''a2'', True, JStr (js ''s1''))]"
  by (simp add: same_owner_twice_def eval_defs)



section \<open>A broadcaster's socket closes\<close>

lemma ended_notify [simp]:
  "filter (is_stream_ended \<circ> snd) (outbox (notifyStreamerAboutViewers st k a v)) =
   filter (is_stream_ended \<circ> snd) (outbox st)"
  by (simp add: notifyStreamerAboutViewers_def Let_def split: option.splits)


section \<open>The orphan sweep\<close>

lemma sweep_step_gone:
  "map_of (activeStreamers st) K = None \<Longrightarrow> map_of (activeStreamers (sweep_step e st)) K = None"
  by (simp add: sweep_step_def delete_conv' split: option.splits)

lemma sweep_fold_gone:
  "map_of (activeStreamers st) K = None \<Longrightarrow> map_of (activeStreamers (fold sweep_step es st)) K = None"
  by (induction es arbitrary: st) (simp_all add: sweep_step_gone)

lemma update_status_Inr:
  "update_status d v s = Inr d' \<Longrightarrow>
   \<exists>k. v = JStr k \<and> d' = map (\<lambda>r. if uid r = k then r\<lparr>status := Some s\<rparr> else r) d"
  by (cases v) (auto simp: update_status_def split: if_splits)

lemma db_cleanup:
  "db (cleanupOrphanedStream st k j) = db st \<or>
   (\<exists>u. db (cleanupOrphanedStream st k j) =
      map (\<lambda>r. if uid r = u then r\<lparr>status := Some (js ''offline'')\<rparr> else r) (db st))"
  by (auto simp: cleanupOrphanedStream_def Let_def split: sum.splits dest: update_status_Inr)

lemma db_sweep_step:
  "db (sweep_step e st) = db st \<or>
   (\<exists>u. db (sweep_step e st) =
      map (\<lambda>r. if uid r = u then r\<lparr>status := Some (js ''offline'')\<rparr> else r) (db st))"
  using db_cleanup by (simp add: sweep_step_def split: option.splits)

text \<open>A row that exists, and is \<open>offline\<close>, stays so during the sweep.\<close>

lemma exists_after_offline:
  "list_ex (\<lambda>r. uid r = S) (map (\<lambda>r. if uid r = u then r\<lparr>status := s\<rparr> else r) d)
     = list_ex (\<lambda>r. uid r = S) d"
  by (induction d) auto

lemma offline_after_offline:
  "list_all (\<lambda>r. uid r = S \<longrightarrow> status r = Some s) d \<Longrightarrow>
   list_all (\<lambda>r. uid r = S \<longrightarrow> status r = Some s)
     (map (\<lambda>r. if uid r = u then r\<lparr>status := Some s\<rparr> else r) d)"
  by (induction d) auto

lemma sweep_step_keeps:
  "list_ex (\<lambda>r. uid r = S) (db (sweep_step e st)) = list_ex (\<lambda>r. uid r = S) (db st)"
  "list_all (\<lambda>r. uid r = S \<longrightarrow> status r = Some (js ''offline'')) (db st) \<Longrightarrow>
   list_all (\<lambda>r. uid r = S \<longrightarrow> status r = Some (js ''offline'')) (db (sweep_step e st))"
  using db_sweep_step[of e st] by (auto simp: exists_after_offline offline_after_offline)

lemma outbox_sweep_step: "set (outbox st) \<subseteq> set (outbox (sweep_step e st))"
  by (auto simp: sweep_step_def cleanupOrphanedStream_def Let_def split: option.splits sum.splits)

lemma sweep_fold_keeps:
  "list_ex (\<lambda>r. uid r = S) (db (fold sweep_step es st)) = list_ex (\<lambda>r. uid r = S) (db st)"
  "list_all (\<lambda>r. uid r = S \<longrightarrow> status r = Some (js ''offline'')) (db st) \<Longrightarrow>
   list_all (\<lambda>r. uid r = S \<longrightarrow> status r = Some (js ''offline'')) (db (fold sweep_step es st))"
  "set (outbox st) \<subseteq> set (outbox (fold sweep_step es st))"
proof -
  show "list_ex (\<lambda>r. uid r = S) (db (fold sweep_step es st)) = list_ex (\<lambda>r. uid r = S) (db st)"
    by (induction es arbitrary: st) (simp_all add: sweep_step_keeps)
  show "list_all (\<lambda>r. uid r = S \<longrightarrow> status r = Some (js ''offline'')) (db st) \<Longrightarrow>
   list_all (\<lambda>r. uid r = S \<longrightarrow> status r = Some (js ''offline'')) (db (fold sweep_step es st))"
    by (induction es arbitrary: st) (simp_all add: sweep_step_keeps)
  show "set (outbox st) \<subseteq> set (outbox (fold sweep_step es st))"
  proof (induction es arbitrary: st)
    case Nil
    show ?case by simp
  next
    case (Cons e es)
    from outbox_sweep_step[of st e] Cons[of "sweep_step e st"] show ?case by auto
  qed
qed

text \<open>The step at an entry whose socket is gone and whose row exists.\<close>

lemma offline_set:
  "list_all (\<lambda>r. uid r = S \<longrightarrow> status r = Some s)
     (map (\<lambda>r. if uid r = S then r\<lparr>status := Some s\<rparr> else r) d)"
  by (induction d) auto

lemma sweep_step_orphan:
  assumes gone: "map_of (sockets st) (si_socketId info) = None"
    and row: "list_ex (\<lambda>r. uid r = S) (db st)"
  shows "map_of (activeStreamers (sweep_step (JStr S, info) st)) (JStr S) = None"
    and "list_all (\<lambda>r. uid r = S \<longrightarrow> status r = Some (js ''offline''))
           (db (sweep_step (JStr S, info) st))"
    and "(map fst (sockets st), StreamEnded (JStr S) msg_tcp_lost (js ''tcp_disconnection'') None)
           \<in> set (outbox (sweep_step (JStr S, info) st))"
  using gone row
  by (simp_all add: sweep_step_def cleanupOrphanedStream_def update_status_exists Let_def
      delete_conv' offline_set)

lemma sweep_fold_orphan:
  assumes "(JStr S, info) \<in> set es"
    and "map_of (sockets st) (si_socketId info) = None"
    and "list_ex (\<lambda>r. uid r = S) (db st)"
  shows "map_of (activeStreamers (fold sweep_step es st)) (JStr S) = None \<and>
         list_all (\<lambda>r. uid r = S \<longrightarrow> status r = Some (js ''offline''))
           (db (fold sweep_step es st)) \<and>
         (map fst (sockets st), StreamEnded (JStr S) msg_tcp_lost (js ''tcp_disconnection'') None)
           \<in> set (outbox (fold sweep_step es st))"
  using assms
proof (induction es arbitrary: st)
  case Nil
  then show ?case by simp
next
  case (Cons e es)
  show ?case
  proof (cases "e = (JStr S, info)")
    case True
    note o = sweep_step_orphan [OF Cons.prems(2) Cons.prems(3)]
    from True o(1) have "map_of (activeStreamers (fold sweep_step (e # es) st)) (JStr S) = None"
      by (simp add: sweep_fold_gone)
    moreover from True o(2)
    have "list_all (\<lambda>r. uid r = S \<longrightarrow> status r = Some (js ''offline''))
            (db (fold sweep_step (e # es) st))"
      by (simp add: sweep_fold_keeps(2))
    moreover from True o(3) sweep_fold_keeps(3)[of "sweep_step (JStr S, info) st" es]
    have "(map fst (sockets st), StreamEnded (JStr S) msg_tcp_lost (js ''tcp_disconnection'') None)
            \<in> set (outbox (fold sweep_step (e # es) st))"
      by auto
    ultimately show ?thesis by simp
  next
    case False
    with Cons.prems(1) have "(JStr S, info) \<in> set es" by simp
    moreover have "map_of (sockets (sweep_step e st)) (si_socketId info) = None"
      using Cons.prems(2) by simp
    moreover have "list_ex (\<lambda>r. uid r = S) (db (sweep_step e st))"
      using Cons.prems(3) by (simp add: sweep_step_keeps)
    ultimately show ?thesis
      using Cons.IH[of "sweep_step e st"] by simp
  qed
qed


lemma sweep_orphan:
  assumes "map_of (activeStreamers st) (JStr S) = Some info"
    and "map_of (sockets st) (si_socketId info) = None"
    and "list_ex (\<lambda>r. uid r = S) (db st)"
  shows "map_of (activeStreamers (checkDisconnectedStreamers st)) (JStr S) = None"
    and "list_all (\<lambda>r. uid r = S \<longrightarrow> status r = Some (js ''offline''))
           (db (checkDisconnectedStreamers st))"
    and "list_ex (\<lambda>r. uid r = S) (db (checkDisconnectedStreamers st))"
    and "(map fst (sockets st), StreamEnded (JStr S) msg_tcp_lost (js ''tcp_disconnection'') None)
           \<in> set (outbox (checkDisconnectedStreamers st))"
proof -
  from assms(1) have "(JStr S, info) \<in> set (activeStreamers st)" by (rule map_of_SomeD)
  from sweep_fold_orphan [OF this assms(2) assms(3)]
  show "map_of (activeStreamers (checkDisconnectedStreamers st)) (JStr S) = None"
    and "list_all (\<lambda>r. uid r = S \<longrightarrow> status r = Some (js ''offline''))
           (db (checkDisconnectedStreamers st))"
    and "(map fst (sockets st), StreamEnded (JStr S) msg_tcp_lost (js ''tcp_disconnection'') None)
           \<in> set (outbox (checkDisconnectedStreamers st))"
    by (simp_all add: checkDisconnectedStreamers_def)
  from assms(3) show "list_ex (\<lambda>r. uid r = S) (db (checkDisconnectedStreamers st))"
    by (simp add: checkDisconnectedStreamers_def sweep_fold_keeps(1))
qed













section \<open>The debouncer\<close>

lemma timers_ok_same:
  "timers a = timers b \<Longrightarrow> broadcastTimeout a = broadcastTimeout b \<Longrightarrow> timers_ok a = timers_ok b"
  by (simp add: timers_ok_def)

lemma schedule_timers:
  assumes "timers_ok st"
  shows "timers (scheduleBroadcastUpdate st) = [(nextTimer st, now st + 100)]"
    and "broadcastTimeout (scheduleBroadcastUpdate st) = Some (nextTimer st)"
    and "nextTimer (scheduleBroadcastUpdate st) = Suc (nextTimer st)"
proof -
  show "broadcastTimeout (scheduleBroadcastUpdate st) = Some (nextTimer st)"
    and "nextTimer (scheduleBroadcastUpdate st) = Suc (nextTimer st)"
    by (simp_all add: scheduleBroadcastUpdate_def setTimeout_def clearTimeout_def split: option.splits)
  show "timers (scheduleBroadcastUpdate st) = [(nextTimer st, now st + 100)]"
  proof (cases "broadcastTimeout st")
    case None
    with assms have "timers st = []" by (simp add: timers_ok_def)
    with None show ?thesis by (simp add: scheduleBroadcastUpdate_def setTimeout_def)
  next
    case (Some h)
    with assms have "\<forall>t \<in> set (timers st). fst t = h" by (auto simp: timers_ok_def)
    then have "filter (\<lambda>t. fst t \<noteq> h) (timers st) = []" by (simp add: filter_empty_conv)
    with Some show ?thesis
      by (simp add: scheduleBroadcastUpdate_def setTimeout_def clearTimeout_def)
  qed
qed

lemma timers_ok_schedule [simp]: "timers_ok st \<Longrightarrow> timers_ok (scheduleBroadcastUpdate st)"
  using schedule_timers[of st] by (simp add: timers_ok_def)

lemma timers_ok_emit [simp]:
  "timers_ok (socket_emit i ev st) = timers_ok st"
  "timers_ok (io_emit ev st) = timers_ok st"
  "timers_ok (io_in_emit r ev st) = timers_ok st"
  "timers_ok (socket_to_emit i r ev st) = timers_ok st"
  "timers_ok (emit to ev st) = timers_ok st"
  by (simp_all add: timers_ok_def io_in_emit_def socket_to_emit_def)

lemma timers_ok_prims [simp]:
  "timers_ok (socket_join i r st) = timers_ok st"
  "timers_ok (socket_leave i r st) = timers_ok st"
  "timers_ok (upd_socket i f st) = timers_ok st"
  "timers_ok (registerActiveStreamer i k st) = timers_ok st"
  "timers_ok (unregisterActiveStreamer k st) = timers_ok st"
  "timers_ok (notifyStreamerAboutViewers st k a v) = timers_ok st"
  "timers_ok (broadcastUpdatedStreamsList st) = timers_ok st"
  "timers_ok (sendInitialStreamsList st i) = timers_ok st"
  "timers_ok (st\<lparr>db := d\<rparr>) = timers_ok st"
  "timers_ok (st\<lparr>activeStreamers := as\<rparr>) = timers_ok st"
  "timers_ok (st\<lparr>now := t\<rparr>) = timers_ok st"
  by (simp_all add: timers_ok_def)

lemma timers_ok_on_event:
  assumes "timers_ok st"
  shows "timers_ok (on_event jp st i ev data)"
proof (cases "map_of (sockets st) i")
  case None
  with assms show ?thesis by (simp add: on_event_def)
next
  case (Some sock)
  show ?thesis
  proof (cases rule: parse_cases[of jp st i data])
    case (parsed p)
    with assms Some show ?thesis
      by (cases ev)
         (auto simp: on_event_def handleWatchLive_def handleStopWatching_def handleSendMessage_def
            handleTyping_def handleStartStreaming_def handleEndStreaming_def Let_def
            split: sum.splits option.splits jsval.splits)
  next
    case failed
    with assms Some show ?thesis
      by (cases ev)
         (auto simp: on_event_def handleWatchLive_def handleStopWatching_def handleSendMessage_def
            handleTyping_def handleStartStreaming_def handleEndStreaming_def Let_def
            split: jsval.splits)
  qed
qed

lemma timers_ok_cleanup: "timers_ok st \<Longrightarrow> timers_ok (cleanupOrphanedStream st k j)"
  by (simp add: cleanupOrphanedStream_def Let_def split: sum.splits)

lemma timers_ok_sweep_fold: "timers_ok st \<Longrightarrow> timers_ok (fold sweep_step es st)"
  by (induction es arbitrary: st) (simp_all add: sweep_step_def timers_ok_cleanup split: option.splits)

lemma timers_ok_less: "timers_ok st \<Longrightarrow> timers_ok (st\<lparr>timers := filter P (timers st)\<rparr>)"
  by (auto simp: timers_ok_def)

lemma timers_ok_fire: "timers_ok st \<Longrightarrow> timers_ok (fire tm st)"
  by (simp add: fire_def timers_ok_less)

lemma timers_ok_fold_fire: "timers_ok st \<Longrightarrow> timers_ok (fold fire tms st)"
  by (induction tms arbitrary: st) (simp_all add: timers_ok_fire)

lemma timers_ok_advance: "timers_ok st \<Longrightarrow> timers_ok (advance t st)"
  by (simp add: advance_def Let_def timers_ok_fold_fire)

lemma timers_ok_handleDisconnect: "timers_ok st \<Longrightarrow> timers_ok (handleDisconnect st i sock)"
  by (simp add: handleDisconnect_def Let_def)

lemma timers_ok_closed [simp]: "timers_ok (st\<lparr>sockets := s, rooms := r\<rparr>) = timers_ok st"
  by (simp add: timers_ok_def)

lemma timers_ok_step:
  assumes "timers_ok st"
  shows "timers_ok (step jp st e)"
proof (cases e)
  case (Connect i who)
  with assms show ?thesis
    by (simp add: on_connection_def sendUserInfo_def Let_def timers_ok_def split: option.splits)
next
  case (Client i ev data)
  with assms show ?thesis by (simp add: timers_ok_on_event)
next
  case (Disconnect i)
  with assms show ?thesis
    by (simp add: on_disconnect_def timers_ok_handleDisconnect split: option.splits)
next
  case (Advance t)
  with assms show ?thesis by (simp add: timers_ok_advance)
next
  case Sweep
  with assms show ?thesis by (simp add: checkDisconnectedStreamers_def timers_ok_sweep_fold)
next
  case Destroy
  with assms show ?thesis
    by (auto simp: destroy_def Let_def timers_ok_def clearTimeout_def split: option.splits)
next
  case (DbWrite d)
  with assms show ?thesis by simp
qed

lemma timers_ok_run: "timers_ok (run jp (init d) evs)"
proof (induction evs rule: rev_induct)
  case Nil
  show ?case by (simp add: run_Nil init_def timers_ok_def)
next
  case (snoc e evs)
  then show ?case by (simp add: run_snoc timers_ok_step)
qed


text \<open>Running the event loop with nothing due, and with the one timeout due.\<close>

lemma advance_idle:
  assumes "timers st = [(h, dl)]" "max (now st) T < dl"
  shows "advance T st = st\<lparr>now := max (now st) T\<rparr>"
proof -
  from assms(2) have "\<not> dl \<le> max (now st) T" by linarith
  with assms(1) show ?thesis by (simp add: advance_def Let_def)
qed

lemma advance_empty:
  assumes "timers st = []"
  shows "advance T st = st\<lparr>now := max (now st) T\<rparr>"
  using assms by (simp add: advance_def Let_def)

lemma broadcast_entry_same:
  "sockets a = sockets b \<Longrightarrow> rooms a = rooms b \<Longrightarrow> broadcast_entry a = broadcast_entry b"
  by (simp add: broadcast_entry_def fetchSockets_def fun_eq_iff)

lemma advance_due:
  assumes "timers st = [(h, dl)]" "dl \<le> max (now st) T"
  shows "advance T st =
           io_emit (StreamsList (map (broadcast_entry st) (findMany_active (db st)))
                      (length (findMany_active (db st))) True)
             (st\<lparr>now := max (now st) T, timers := []\<rparr>)"
proof -
  have "broadcast_entry (st\<lparr>now := max (now st) T, timers := []\<rparr>) = broadcast_entry st"
    by (rule broadcast_entry_same) simp_all
  with assms show ?thesis
    by (simp add: advance_def fire_def broadcastUpdatedStreamsList_def Let_def)
qed

lemma burst_pending:
  assumes "timers_ok st" "\<forall>g \<in> set gaps. g < 100"
  shows "timers (burst gaps st) = [(nextTimer st + length gaps, now st + sum_list gaps + 100)]
       \<and> now (burst gaps st) = now st + sum_list gaps
       \<and> outbox (burst gaps st) = outbox st
       \<and> sockets (burst gaps st) = sockets st
       \<and> rooms (burst gaps st) = rooms st
       \<and> db (burst gaps st) = db st"
  using assms
proof (induction gaps arbitrary: st)
  case Nil
  then show ?case by (simp add: schedule_timers)
next
  case (Cons g gaps)
  let ?st1 = "scheduleBroadcastUpdate st"
  have t: "timers ?st1 = [(nextTimer st, now st + 100)]"
    using Cons.prems(1) by (simp add: schedule_timers)
  from Cons.prems(2) have g: "g < 100" by simp
  have adv: "advance (now st + g) ?st1 = ?st1\<lparr>now := now st + g\<rparr>"
    using advance_idle[OF t, of "now st + g"] g by (simp add: max_def)
  have ok: "timers_ok (?st1\<lparr>now := now st + g\<rparr>)"
    using Cons.prems(1) by simp
  from Cons.prems(2) have rest: "\<forall>g \<in> set gaps. g < 100" by simp
  from Cons.IH [OF ok rest] adv Cons.prems(1)
  show ?case by (simp add: schedule_timers add.assoc)
qed


text \<open>
  C7. From any reachable state, a burst of \<open>N \<ge> 1\<close> calls to
  \<open>scheduleBroadcastUpdate\<close> (here \<open>N\<close> is one more than the number of gaps), each
  call coming less than 100 ms after the one before it: nothing is emitted during
  the burst; nothing is emitted while the clock is less than 100 ms past the last
  call; once it is 100 ms or more past the last call, exactly one \<open>streams-list\<close>
  has gone to every connected socket, with the counts of that moment, and no
  further running of the event loop emits anything more.
\<close>

theorem C7_debounce_one_broadcast:
  assumes within: "\<forall>g \<in> set gaps. g < 100"
    and st: "st = run jp (init d) evs"
    and st': "st' = burst gaps st"
  shows "outbox st' = outbox st
       \<and> now st' = now st + sum_list gaps
       \<and> (\<forall>T. T < now st' + 100 \<longrightarrow> outbox (advance T st') = outbox st')
       \<and> (\<forall>T. now st' + 100 \<le> T \<longrightarrow>
            outbox (advance T st') =
              outbox st' @ [(map fst (sockets st'),
                             StreamsList (map (broadcast_entry st') (findMany_active (db st')))
                               (length (findMany_active (db st'))) True)]
            \<and> (\<forall>T'. outbox (advance T' (advance T st')) = outbox (advance T st')))"
proof -
  have ok: "timers_ok st" using st by (simp add: timers_ok_run)
  note b = burst_pending [OF ok within, folded st']
  from b have t: "timers st' = [(nextTimer st + length gaps, now st' + 100)]" by simp
  have idle: "outbox (advance T st') = outbox st'" if "T < now st' + 100" for T
    using advance_idle[OF t, of T] that by (simp add: max_def)
  have due: "advance T st' =
           io_emit (StreamsList (map (broadcast_entry st') (findMany_active (db st')))
                      (length (findMany_active (db st'))) True)
             (st'\<lparr>now := max (now st') T, timers := []\<rparr>)" if "now st' + 100 \<le> T" for T
    using advance_due[OF t, of T] that by (simp add: max_def)
  have once: "outbox (advance T' (advance T st')) = outbox (advance T st')"
    if "now st' + 100 \<le> T" for T T'
    using due[OF that] advance_empty[of "advance T st'" T'] by simp
  from b idle due once show ?thesis by simp
qed


text \<open>
  The theorem for three calls at 0, 50 and 149 ms in \<open>one_viewer\<close>: nothing by
  248 ms, one broadcast at 249 ms, nothing more later.
\<close>

theorem C7_debounce_one_broadcast_witness:
  "outbox (burst [50, 99] one_viewer) = outbox one_viewer
   \<and> now (burst [50, 99] one_viewer) = 149
   \<and> outbox (advance 248 (burst [50, 99] one_viewer)) = outbox one_viewer
   \<and> outbox (advance 249 (burst [50, 99] one_viewer)) =
       outbox one_viewer @
         [([js ''v''],
           StreamsList [StreamEntry (stream_row (js ''s1'') (js ''u1'') (js ''active'')) 0 DEFAULT_AVATAR]
             1 True)]
   \<and> outbox (advance 1000 (advance 249 (burst [50, 99] one_viewer))) =
       outbox (advance 249 (burst [50, 99] one_viewer))"
proof -
  let ?st' = "burst [50, 99] one_viewer"
  have w: "\<forall>g \<in> set [50, 99 :: nat]. g < 100" by simp
  have e: "now one_viewer = 0" "sockets one_viewer = 
       [(js ''v'', \<lparr>user = spectator (js ''u9''), isBroadcaster = False, streamUid = JUndefined,
                    watchingStream = JUndefined, isAutoViewer = False\<rparr>)]"
    "map (broadcast_entry one_viewer) (findMany_active (db one_viewer))
       = [StreamEntry (stream_row (js ''s1'') (js ''u1'') (js ''active'')) 0 DEFAULT_AVATAR]"
    "findMany_active (db one_viewer) = [stream_row (js ''s1'') (js ''u1'') (js ''active'')]"
    by (simp_all add: one_viewer_def eval_defs)
  have ok: "timers_ok one_viewer" by (simp add: one_viewer_def timers_ok_run)
  note same = burst_pending [OF ok w]
  have be: "broadcast_entry ?st' = broadcast_entry one_viewer"
    using same by (intro broadcast_entry_same) blast+
  note c = C7_debounce_one_broadcast [OF w one_viewer_def refl]
  from c have c1: "outbox ?st' = outbox one_viewer" by blast
  from c e(1) have c2: "now ?st' = 149" by (simp del: burst.simps)
  from c have "248 < now ?st' + 100 \<longrightarrow> outbox (advance 248 ?st') = outbox ?st'" by blast
  with c1 c2 have c3: "outbox (advance 248 ?st') = outbox one_viewer" by (simp del: burst.simps)
  from c have c4: "now ?st' + 100 \<le> 249 \<longrightarrow>
            outbox (advance 249 ?st') =
              outbox ?st' @ [(map fst (sockets ?st'),
                             StreamsList (map (broadcast_entry ?st') (findMany_active (db ?st')))
                               (length (findMany_active (db ?st'))) True)]
            \<and> (\<forall>T'. outbox (advance T' (advance 249 ?st')) = outbox (advance 249 ?st'))"
    by blast
  from c4 c1 c2 same be e
  have c5: "outbox (advance 249 ?st') =
       outbox one_viewer @
         [([js ''v''],
           StreamsList [StreamEntry (stream_row (js ''s1'') (js ''u1'') (js ''active'')) 0 DEFAULT_AVATAR]
             1 True)]"
    and c6: "outbox (advance 1000 (advance 249 ?st')) = outbox (advance 249 ?st')"
    by (simp_all del: burst.simps)
  from c1 c2 c3 c5 c6 show ?thesis by blast
qed



section \<open>Leaving a stream\<close>











end
